theory Spec2Isabelle
  imports Complex_Main "HOL-Library.Word" "HOL-Library.Char_ord" "HOL-Library.List_Lexorder"
    "HOL-Library.Sublist"
begin

unbundle bit_operations_syntax

section \<open>The C library, as far as \<^verbatim>\<open>kermit.c\<close> calls it\<close>

text \<open>
  A C string is modelled by the list of its bytes before the terminating NUL, so
  \<^verbatim>\<open>strlen\<close> is the length of the list. The character classes are those of the
  C locale.
\<close>

definition NUL :: char where
  "NUL = CHR 0x00"

definition NL :: char where
  "NL = CHR 0x0A"

definition CR :: char where
  "CR = CHR 0x0D"

definition cstr :: "string \<Rightarrow> string" where
  "cstr bytes = takeWhile (\<lambda>c. c \<noteq> NUL) bytes"

definition strlen :: "string \<Rightarrow> nat" where
  "strlen s = length s"

definition isspace :: "char \<Rightarrow> bool" where
  "isspace c = (let n = (of_char c :: nat) in n = 32 \<or> (9 \<le> n \<and> n \<le> 13))"

definition isdigit :: "char \<Rightarrow> bool" where
  "isdigit c = (let n = (of_char c :: nat) in 48 \<le> n \<and> n \<le> 57)"

definition isxdigit :: "char \<Rightarrow> bool" where
  "isxdigit c = (let n = (of_char c :: nat) in
     (48 \<le> n \<and> n \<le> 57) \<or> (65 \<le> n \<and> n \<le> 70) \<or> (97 \<le> n \<and> n \<le> 102))"

definition tolower :: "char \<Rightarrow> char" where
  "tolower c = (let n = (of_char c :: nat) in
     if 65 \<le> n \<and> n \<le> 90 then char_of (n + 32) else c)"

definition digit_value :: "char \<Rightarrow> int" where
  "digit_value c = (let n = (of_char c :: nat) in
     if 48 \<le> n \<and> n \<le> 57 then int n - 48
     else if 65 \<le> n \<and> n \<le> 70 then int n - 55
     else int n - 87)"

text \<open>
  \<^verbatim>\<open>strcmp\<close> orders strings bytewise; only its sign is specified, and the program only
  ever tests it against zero. \<^verbatim>\<open>strncmp\<close> looks at no more than \<open>n\<close> bytes of each
  string, \<^verbatim>\<open>strcasecmp\<close> compares after lowering.
\<close>

definition strcmp :: "string \<Rightarrow> string \<Rightarrow> int" where
  "strcmp a b = (if a = b then 0 else if a < b then - 1 else 1)"

definition strncmp :: "string \<Rightarrow> string \<Rightarrow> nat \<Rightarrow> int" where
  "strncmp a b n = strcmp (take n a) (take n b)"

definition strcasecmp :: "string \<Rightarrow> string \<Rightarrow> int" where
  "strcasecmp a b = strcmp (map tolower a) (map tolower b)"

text \<open>
  \<^verbatim>\<open>strlen(option) - k\<close> is computed in \<^verbatim>\<open>size_t\<close> (64 bits): below zero it wraps
  around to a number larger than any string.
\<close>

definition size_t_sub :: "nat \<Rightarrow> nat \<Rightarrow> nat" where
  "size_t_sub a b = (if b \<le> a then a - b else 2 ^ 64 - (b - a))"

text \<open>
  \<^verbatim>\<open>strrchr(s, c)\<close> points at the last occurrence of \<open>c\<close>; the model returns its
  index, so that \<^verbatim>\<open>p + 1\<close> is \<open>drop (Suc i) s\<close> and \<^verbatim>\<open>*p = 0\<close> leaves \<open>take i s\<close>.
\<close>

definition strrchr :: "string \<Rightarrow> char \<Rightarrow> nat option" where
  "strrchr s c =
     (if c \<in> set s then Some (length s - Suc (length (takeWhile (\<lambda>x. x \<noteq> c) (rev s))))
      else None)"

text \<open>
  \<^verbatim>\<open>strtol\<close> skips white space, reads a sign and the digits of the base (after an
  optional \<^verbatim>\<open>0x\<close> in base 16) and saturates at the bounds of \<^verbatim>\<open>long\<close>; the cast to
  \<^verbatim>\<open>int\<close> keeps the low 32 bits. \<^verbatim>\<open>atoi\<close> is \<^verbatim>\<open>(int) strtol(s, NULL, 10)\<close>, as in glibc.
\<close>

definition split_sign :: "string \<Rightarrow> bool \<times> string" where
  "split_sign s =
     (case s of
        [] \<Rightarrow> (False, [])
      | c # r \<Rightarrow> if c = CHR ''-'' then (True, r) else if c = CHR ''+'' then (False, r) else (False, s))"

definition long_of :: "bool \<Rightarrow> int \<Rightarrow> int" where
  "long_of neg n = (if neg then max (- (2 ^ 63)) (- n) else min (2 ^ 63 - 1) n)"

definition int_of_long :: "int \<Rightarrow> int" where
  "int_of_long l = sint (word_of_int l :: 32 word)"

definition strtol10 :: "string \<Rightarrow> int" where
  "strtol10 s =
     (case split_sign (dropWhile isspace s) of
        (neg, u) \<Rightarrow> long_of neg (foldl (\<lambda>a c. 10 * a + digit_value c) 0 (takeWhile isdigit u)))"

definition strip_0x :: "string \<Rightarrow> string" where
  "strip_0x u =
     (case u of
        a # b # r \<Rightarrow> if a = CHR ''0'' \<and> (b = CHR ''x'' \<or> b = CHR ''X'') then r else u
      | _ \<Rightarrow> u)"

definition strtol16 :: "string \<Rightarrow> int" where
  "strtol16 s =
     (case split_sign (dropWhile isspace s) of
        (neg, u) \<Rightarrow>
          long_of neg (foldl (\<lambda>a c. 16 * a + digit_value c) 0 (takeWhile isxdigit (strip_0x u))))"

definition atoi :: "string \<Rightarrow> int" where
  "atoi s = int_of_long (strtol10 s)"

text \<open>
  \<^verbatim>\<open>fgets(buf, n, f)\<close> on the unread rest of the file: it stores at most \<open>n - 1\<close> bytes,
  stops after a newline, and returns NULL (here \<open>None\<close>) at the end of the file. With
  \<open>n = 1\<close> it stores the empty string and reads nothing.
\<close>

definition fgets :: "nat \<Rightarrow> string \<Rightarrow> (string \<times> string) option" where
  "fgets n f =
     (if n = 0 then None
      else if n = 1 then Some ([], f)
      else if f = [] then None
      else
        (let w = take (n - 1) f; l = takeWhile (\<lambda>c. c \<noteq> NL) w
         in if length l < length w then Some (l @ [NL], drop (Suc (length l)) f)
            else Some (w, drop (length w) f)))"

text \<open>
  The two \<^verbatim>\<open>sscanf\<close> calls. \<^verbatim>\<open>%s\<close> skips white space and stores the next run of
  non-space bytes; a blank in the format skips white space; \<^verbatim>\<open>%[^\n]\<close> stores a
  non-empty run of bytes other than newline. A conversion that finds nothing stops the
  call and leaves its buffer, and the later ones, as they were: a buffer is \<open>None\<close> while
  nothing has ever been stored in it.
\<close>

definition scan_token :: "string \<Rightarrow> (string \<times> string) option" where
  "scan_token s =
     (let t = dropWhile isspace s
      in if t = [] then None
         else Some (takeWhile (\<lambda>c. \<not> isspace c) t, dropWhile (\<lambda>c. \<not> isspace c) t))"

definition sscanf_s_s :: "string \<Rightarrow> string option \<times> string option \<Rightarrow> string option \<times> string option" where
  "sscanf_s_s buf bufs =
     (case scan_token buf of
        None \<Rightarrow> bufs
      | Some (a, r) \<Rightarrow>
          (case scan_token r of
             None \<Rightarrow> (Some a, snd bufs)
           | Some (b, r') \<Rightarrow> (Some a, Some b)))"

definition sscanf_s_line :: "string \<Rightarrow> string option \<times> string option \<Rightarrow> string option \<times> string option" where
  "sscanf_s_line buf bufs =
     (case scan_token buf of
        None \<Rightarrow> bufs
      | Some (a, r) \<Rightarrow>
          (let t = dropWhile isspace r
           in if t = [] then (Some a, snd bufs)
              else (Some a, Some (takeWhile (\<lambda>c. c \<noteq> NL) t))))"

text \<open>
  \<^verbatim>\<open>key = strtok(value, "~"); cmd = strtok(NULL, "");\<close> The first call skips leading
  tildes and ends the key at the next tilde, which it overwrites with NUL; the second
  returns whatever follows, or NULL when nothing does. The result is the pair of tokens
  (\<open>None\<close> when the key is NULL, and then so is the command) and the string left in
  \<^verbatim>\<open>value\<close>.
\<close>

definition strtok_tilde :: "string \<Rightarrow> (string \<times> string option) option \<times> string" where
  "strtok_tilde v =
     (let t = dropWhile (\<lambda>c. c = CHR ''~'') v;
          k = takeWhile (\<lambda>c. c \<noteq> CHR ''~'') t;
          r = dropWhile (\<lambda>c. c \<noteq> CHR ''~'') t
      in if t = [] then (None, v)
         else if r = [] then (Some (k, None), v)
         else (Some (k, if tl r = [] then None else Some (tl r)),
               takeWhile (\<lambda>c. c = CHR ''~'') v @ k))"


section \<open>Data of the program\<close>

text \<open>
  The key-binding structs, the palette entry of GDK (its channels are the exact quotients
  that the C expressions denote, before rounding to \<^verbatim>\<open>double\<close>), and the faults of the
  C program that the model makes explicit: a write outside an array, and a read of a
  buffer nothing was stored in.
\<close>

record Bindings =
  internal :: bool
  key :: string
  cmd :: string

record DefaultBindings =
  bind :: Bindings
  invalid :: bool

record GdkRGBA =
  red :: rat
  green :: rat
  blue :: rat
  alpha :: rat

datatype VteCursorShape =
  VTE_CURSOR_SHAPE_BLOCK | VTE_CURSOR_SHAPE_IBEAM | VTE_CURSOR_SHAPE_UNDERLINE

datatype fault = OutOfBounds | Uninitialised

text \<open>The modifier bits of \<^verbatim>\<open>GdkModifierType\<close>.\<close>

definition GDK_SHIFT_MASK :: "32 word" where
  "GDK_SHIFT_MASK = push_bit 0 1"

definition GDK_CONTROL_MASK :: "32 word" where
  "GDK_CONTROL_MASK = push_bit 2 1"

definition GDK_MOD1_MASK :: "32 word" where
  "GDK_MOD1_MASK = push_bit 3 1"

text \<open>
  What \<^verbatim>\<open>printLog\<close> is called with, and the calls into VTE and the process table whose
  whole effect lies outside the program's variables. A terminal widget is named by a
  number.
\<close>

datatype log_msg =
  Log_config_not_found string
  | Log_cmd nat string string
  | Log_reloading
  | Log_loading_default
  | Log_shell
  | Log_command string
  | Log_workdir string

datatype call =
  Copy_clipboard nat
  | Paste_clipboard nat
  | Feed_child nat string
  | Set_font nat string int
  | Spawn_async nat string
  | Clone nat

text \<open>
  The notebook widget of GTK holds the tabs: the terminal of each page, in order, and the
  index of the current page.
\<close>

record GtkNotebook =
  pages :: "nat list"
  current :: nat

text \<open>
  The file-scope variables of \<^verbatim>\<open>kermit.c\<close> that the modelled functions read or write
  (the window, paned and label widgets, the title and the saved arguments are left out),
  followed by the state of the toolkit: the notebook, whether \<^verbatim>\<open>gtk_main_quit\<close> has
  been called, how many terminal widgets exist, what was printed by \<^verbatim>\<open>printLog\<close> and
  the calls made. \<open>'f\<close> is the type of C's floating-point numbers.
\<close>

record 'f globals =
  termOpacity :: 'f
  defaultFontSize :: int
  termBackground :: int
  termForeground :: int
  termBoldColor :: int
  termCursorColor :: int
  termCursorFg :: int
  termCursorShape :: VteCursorShape
  currentFontSize :: int
  keyState :: "32 word"
  actionKey :: "32 word"
  tabPosition :: int
  keyCount :: nat
  colorCount :: nat
  termFont :: string
  termLocale :: string
  termWordChars :: string
  configFileName :: "string option"
  workingDir :: "string option"
  termCommand :: "string option"
  defaultConfigFile :: bool
  debugMessages :: bool
  closeTab :: bool
  termPalette :: "GdkRGBA list"
  keyBindings :: "Bindings list"
  defaultKeyBindings :: "DefaultBindings list"
  notebook :: GtkNotebook
  main_quit :: bool
  terminals :: nat
  stderr :: "log_msg list"
  calls :: "call list"

text \<open>
  What the program takes from outside its source file: the macros of \<^verbatim>\<open>kermit.h\<close>
  (kept as parameters, so every theorem holds for any values of them), and the
  environment: \<^verbatim>\<open>$HOME\<close>, the current directory, the files that
  \<^verbatim>\<open>fopen\<close> finds with their contents, \<^verbatim>\<open>atof\<close>, whether Pango accepts a font
  description, and the page GTK makes current when the current page is removed (given the
  removed index and the number of pages left).
\<close>

record 'f env =
  TERM_NAME :: string
  TERM_CONFIG_DIR :: string
  TERM_CONFIG_LENGTH :: nat
  TERM_OPACITY :: 'f
  TERM_FONT :: string
  TERM_FONT_DEFAULT_SIZE :: int
  TERM_LOCALE :: string
  TERM_WORD_CHARS :: string
  TERM_BACKGROUND :: int
  TERM_FOREGROUND :: int
  TERM_BOLD_COLOR :: int
  TERM_CURSOR_COLOR :: int
  TERM_CURSOR_FG :: int
  HOME :: string
  current_dir :: string
  fopen :: "string \<Rightarrow> string option"
  atof :: "string \<Rightarrow> 'f"
  pango_font_description_from_string :: "string \<Rightarrow> int \<Rightarrow> bool"
  gtk_neighbour_page :: "nat \<Rightarrow> nat \<Rightarrow> nat"

definition TERM_PALETTE_SIZE :: nat where
  \<comment> \<open>Modelled from the spec: the macro \<^verbatim>\<open>TERM_PALETTE_SIZE\<close> of \<^verbatim>\<open>kermit.h\<close> is missing;
      the spec's data model has a ``palette array (256 RGB entries)''.\<close>
  "TERM_PALETTE_SIZE = 256"

definition defaultKeyBindings_init :: "DefaultBindings list" where
  "defaultKeyBindings_init =
     map (\<lambda>(k, c). \<lparr>bind = \<lparr>internal = True, key = k, cmd = c\<rparr>, invalid = False\<rparr>)
       [(''c'', ''copy''),
        (''v'', ''paste''),
        (''t'', ''new-tab''),
        (''n'', ''new-window''),
        (''return'', ''new-tab''),
        (''r'', ''reload-config''),
        (''d'', ''default-config''),
        (''q'', ''exit''),
        (''k'', ''inc-font-size''),
        (''up'', ''inc-font-size''),
        (''j'', ''dec-font-size''),
        (''down'', ''dec-font-size''),
        (''equals'', ''default-font-size''),
        (''plus'', ''default-font-size''),
        (''l'', ''next-tab''),
        (''right'', ''next-tab''),
        (''page_down'', ''next-tab''),
        (''h'', ''prev-tab''),
        (''left'', ''prev-tab''),
        (''page_up'', ''prev-tab''),
        (''w'', ''close-tab''),
        (''backspace'', ''close-tab'')]"

definition defaultKeyCount :: "DefaultBindings list \<Rightarrow> nat" where
  "defaultKeyCount tbl = length tbl"

text \<open>
  The variables as their initialisers leave them when \<^verbatim>\<open>main\<close> starts; \<open>cfg\<close>, \<open>wd\<close>,
  \<open>ex\<close> and \<open>dbg\<close> are what \<^verbatim>\<open>parseArgs\<close> stored from the options \<^verbatim>\<open>-c\<close>, \<^verbatim>\<open>-w\<close>,
  \<^verbatim>\<open>-e\<close> and \<^verbatim>\<open>-d\<close>. Static arrays start zeroed; no widget exists yet.
\<close>

definition zero_Bindings :: Bindings where
  "zero_Bindings = \<lparr>internal = False, key = [], cmd = []\<rparr>"

definition zero_GdkRGBA :: GdkRGBA where
  "zero_GdkRGBA = \<lparr>red = 0, green = 0, blue = 0, alpha = 0\<rparr>"

definition initial_globals ::
    "'f env \<Rightarrow> string option \<Rightarrow> string option \<Rightarrow> string option \<Rightarrow> bool \<Rightarrow> 'f globals" where
  "initial_globals env cfg wd ex dbg =
     \<lparr>termOpacity = TERM_OPACITY env,
      defaultFontSize = TERM_FONT_DEFAULT_SIZE env,
      termBackground = TERM_BACKGROUND env,
      termForeground = TERM_FOREGROUND env,
      termBoldColor = TERM_BOLD_COLOR env,
      termCursorColor = TERM_CURSOR_COLOR env,
      termCursorFg = TERM_CURSOR_FG env,
      termCursorShape = VTE_CURSOR_SHAPE_BLOCK,
      currentFontSize = 0,
      keyState = 0,
      actionKey = GDK_MOD1_MASK,
      tabPosition = 0,
      keyCount = 0,
      colorCount = 0,
      termFont = TERM_FONT env,
      termLocale = TERM_LOCALE env,
      termWordChars = TERM_WORD_CHARS env,
      configFileName = cfg,
      workingDir = wd,
      termCommand = ex,
      defaultConfigFile = True,
      debugMessages = dbg,
      closeTab = False,
      termPalette = replicate TERM_PALETTE_SIZE zero_GdkRGBA,
      keyBindings = replicate (TERM_CONFIG_LENGTH env) zero_Bindings,
      defaultKeyBindings = defaultKeyBindings_init,
      notebook = \<lparr>pages = [], current = 0\<rparr>,
      main_quit = False,
      terminals = 0,
      stderr = [],
      calls = []\<rparr>"

definition printLog :: "log_msg \<Rightarrow> 'f globals \<Rightarrow> 'f globals" where
  "printLog m s = (if \<not> debugMessages s then s else s\<lparr>stderr := stderr s @ [m]\<rparr>)"


section \<open>Parsing the configuration file\<close>

definition CLR_R :: "int \<Rightarrow> int" where
  "CLR_R x = drop_bit 16 (x AND 0xff0000)"

definition CLR_G :: "int \<Rightarrow> int" where
  "CLR_G x = drop_bit 8 (x AND 0x00ff00)"

definition CLR_B :: "int \<Rightarrow> int" where
  "CLR_B x = drop_bit 0 (x AND 0x0000ff)"

definition CLR_16 :: "int \<Rightarrow> rat" where
  "CLR_16 x = of_int x / 0xff"

definition CLR_GDK :: "int \<Rightarrow> rat \<Rightarrow> GdkRGBA" where
  "CLR_GDK x a =
     \<lparr>red = CLR_16 (CLR_R x), green = CLR_16 (CLR_G x), blue = CLR_16 (CLR_B x), alpha = a\<rparr>"

text \<open>
  \<^verbatim>\<open>parseColor\<close> rewrites its argument in place when it starts with \<^verbatim>\<open>#\<close> (the mark is
  replaced by \<^verbatim>\<open>0x\<close>), so it returns the buffer too.
\<close>

definition parseColor :: "string \<Rightarrow> string \<times> int" where
  "parseColor v =
     (let v' = (if v \<noteq> [] \<and> hd v = CHR ''#'' then ''0x'' @ tl v else v)
      in (v', int_of_long (strtol16 v')))"

primrec invalidateDefaultBinding :: "Bindings \<Rightarrow> DefaultBindings list \<Rightarrow> DefaultBindings list" where
  "invalidateDefaultBinding binding [] = []"
| "invalidateDefaultBinding binding (d # ds) =
     (if strcmp (cmd (bind d)) (cmd binding) = 0 \<and> internal (bind d) = internal binding
      then d\<lparr>invalid := True\<rparr> else d) # invalidateDefaultBinding binding ds"

text \<open>
  The locals \<^verbatim>\<open>option\<close> and \<^verbatim>\<open>value\<close> of \<^verbatim>\<open>parseSettings\<close> keep their contents from
  one line to the next, so the loop's state is the two buffers and the globals.
\<close>

type_synonym 'f pstate = "string option \<times> string option \<times> 'f globals"

definition with_value :: "string option \<Rightarrow> (string \<Rightarrow> fault + 'a) \<Rightarrow> fault + 'a" where
  "with_value vb f = (case vb of None \<Rightarrow> Inl Uninitialised | Some v \<Rightarrow> f v)"

definition parse_char :: "string option \<Rightarrow> string option \<Rightarrow> 'f globals \<Rightarrow> fault + 'f pstate" where
  "parse_char ob vb s =
     with_value vb (\<lambda>value.
       if value = [] then Inl OutOfBounds
       else Inr (ob, vb, s\<lparr>termWordChars := tl (butlast value)\<rparr>))"

definition parse_key :: "string option \<Rightarrow> string option \<Rightarrow> 'f globals \<Rightarrow> fault + 'f pstate" where
  "parse_key ob vb s =
     with_value vb (\<lambda>value.
       if strncmp value ''alt'' (strlen value) = 0 then Inr (ob, vb, s\<lparr>actionKey := GDK_MOD1_MASK\<rparr>)
       else Inr (ob, vb, s\<lparr>actionKey := GDK_SHIFT_MASK\<rparr>))"

definition parse_bind :: "'f env \<Rightarrow> string \<Rightarrow> string option \<Rightarrow> string option \<Rightarrow> 'f globals \<Rightarrow> fault + 'f pstate" where
  "parse_bind env buf ob0 vb0 s =
     (case sscanf_s_line buf (ob0, vb0) of (ob, vb) \<Rightarrow>
        (case ob of
           None \<Rightarrow> Inl Uninitialised
         | Some option \<Rightarrow>
             with_value vb (\<lambda>value.
               (case strtok_tilde value of
                  (None, value') \<Rightarrow> Inr (ob, Some value', s)
                | (Some (k, None), value') \<Rightarrow> Inr (ob, Some value', s)
                | (Some (k, Some c), value') \<Rightarrow>
                    if keyCount s < TERM_CONFIG_LENGTH env then
                      (let b = \<lparr>internal = (strcmp option ''bindi'' = 0),
                                key = k,
                                cmd = (if strcmp option ''bindx'' = 0 then tl (butlast c) @ [CR]
                                       else tl (butlast c))\<rparr>;
                           s1 = s\<lparr>keyBindings := (keyBindings s)[keyCount s := b]\<rparr>;
                           s2 = printLog (Log_cmd (keyCount s1 + 1) (key b) (cmd b)) s1;
                           s3 = s2\<lparr>defaultKeyBindings := invalidateDefaultBinding b (defaultKeyBindings s2)\<rparr>
                       in Inr (ob, Some value', s3\<lparr>keyCount := keyCount s3 + 1\<rparr>))
                    else Inl OutOfBounds))))"

definition parse_tab :: "string option \<Rightarrow> string option \<Rightarrow> 'f globals \<Rightarrow> fault + 'f pstate" where
  "parse_tab ob vb s =
     with_value vb (\<lambda>value.
       if strncmp value ''bottom'' (strlen value) = 0 then Inr (ob, vb, s\<lparr>tabPosition := 0\<rparr>)
       else Inr (ob, vb, s\<lparr>tabPosition := 1\<rparr>))"

definition parse_font :: "string \<Rightarrow> string option \<Rightarrow> string option \<Rightarrow> 'f globals \<Rightarrow> fault + 'f pstate" where
  "parse_font buf ob0 vb0 s =
     (case sscanf_s_line buf (ob0, vb0) of (ob, vb) \<Rightarrow>
        with_value vb (\<lambda>value.
          (case strrchr value (CHR '' '') of
             None \<Rightarrow> Inr (ob, vb, s)
           | Some i \<Rightarrow>
               Inr (ob, Some (take i value),
                    s\<lparr>defaultFontSize := atoi (drop (Suc i) value), termFont := take i value\<rparr>))))"

definition parse_cursor_shape :: "string option \<Rightarrow> string option \<Rightarrow> 'f globals \<Rightarrow> fault + 'f pstate" where
  "parse_cursor_shape ob vb s =
     with_value vb (\<lambda>value.
       if strncmp value ''underline'' (strlen value) = 0
       then Inr (ob, vb, s\<lparr>termCursorShape := VTE_CURSOR_SHAPE_UNDERLINE\<rparr>)
       else if strncmp value ''ibeam'' (strlen value) = 0
       then Inr (ob, vb, s\<lparr>termCursorShape := VTE_CURSOR_SHAPE_IBEAM\<rparr>)
       else Inr (ob, vb, s\<lparr>termCursorShape := VTE_CURSOR_SHAPE_BLOCK\<rparr>))"

definition parse_color :: "string \<Rightarrow> string option \<Rightarrow> string option \<Rightarrow> 'f globals \<Rightarrow> fault + 'f pstate" where
  "parse_color option ob vb s =
     (case strrchr option (CHR ''r'') of
        None \<Rightarrow> Inr (ob, vb, s)
      | Some i \<Rightarrow>
          with_value vb (\<lambda>value.
            (case parseColor value of (value', c) \<Rightarrow>
               (let n = atoi (drop (Suc i) option)
                in if 0 \<le> n \<and> n < int TERM_PALETTE_SIZE
                   then Inr (ob, Some value',
                             s\<lparr>termPalette := (termPalette s)[nat n := CLR_GDK c 0],
                               colorCount := colorCount s + 1\<rparr>)
                   else Inl OutOfBounds))))"

text \<open>One turn of the \<^verbatim>\<open>while\<close> loop of \<^verbatim>\<open>parseSettings\<close>, on the line \<open>buf\<close>.\<close>

definition parse_line :: "'f env \<Rightarrow> string \<Rightarrow> 'f pstate \<Rightarrow> fault + 'f pstate" where
  "parse_line env buf st =
     (if (buf \<noteq> [] \<and> hd buf = CHR ''#'') \<or> strlen buf < 4 then Inr st
      else
        (case st of (ob0, vb0, s) \<Rightarrow>
           (case sscanf_s_s buf (ob0, vb0) of (ob, vb) \<Rightarrow>
              (case ob of
                 None \<Rightarrow> Inl Uninitialised
               | Some option \<Rightarrow>
                   if strncmp option ''locale'' (strlen option) = 0 then
                     with_value vb (\<lambda>value. Inr (ob, vb, s\<lparr>termLocale := value\<rparr>))
                   else if strncmp option ''char'' (strlen option) = 0 then
                     parse_char ob vb s
                   else if strncmp option ''key'' (strlen option) = 0 then
                     parse_key ob vb s
                   else if strncmp option ''bind'' (size_t_sub (strlen option) 1) = 0 then
                     parse_bind env buf ob vb s
                   else if strncmp option ''tab'' (strlen option) = 0 then
                     parse_tab ob vb s
                   else if strncmp option ''font'' (strlen option) = 0 then
                     parse_font buf ob vb s
                   else if strncmp option ''opacity'' (strlen option) = 0 then
                     with_value vb (\<lambda>value. Inr (ob, vb, s\<lparr>termOpacity := atof env value\<rparr>))
                   else if strncmp option ''cursor'' (strlen option) = 0 then
                     with_value vb (\<lambda>value.
                       case parseColor value of (value', c) \<Rightarrow>
                         Inr (ob, Some value', s\<lparr>termCursorColor := c\<rparr>))
                   else if strncmp option ''cursor_foreground'' (strlen option) = 0 then
                     with_value vb (\<lambda>value.
                       case parseColor value of (value', c) \<Rightarrow>
                         Inr (ob, Some value', s\<lparr>termCursorFg := c\<rparr>))
                   else if strncmp option ''cursor_shape'' (strlen option) = 0 then
                     parse_cursor_shape ob vb s
                   else if strncmp option ''foreground'' (strlen option) = 0 then
                     with_value vb (\<lambda>value.
                       case parseColor value of (value', c) \<Rightarrow>
                         Inr (ob, Some value', s\<lparr>termForeground := c\<rparr>))
                   else if strncmp option ''foreground_bold'' (strlen option) = 0 then
                     with_value vb (\<lambda>value.
                       case parseColor value of (value', c) \<Rightarrow>
                         Inr (ob, Some value', s\<lparr>termBoldColor := c\<rparr>))
                   else if strncmp option ''background'' (strlen option) = 0 then
                     with_value vb (\<lambda>value.
                       case parseColor value of (value', c) \<Rightarrow>
                         Inr (ob, Some value', s\<lparr>termBackground := c\<rparr>))
                   else if strncmp option ''color'' (size_t_sub (strlen option) 2) = 0 then
                     parse_color option ob vb s
                   else Inr (ob, vb, s)))))"

text \<open>
  The loop itself reads the file with \<^verbatim>\<open>fgets\<close> until that returns NULL. Not returning
  is the value \<open>None\<close>; a fault ends the run.
\<close>

partial_function (option) parse_loop :: "'f env \<Rightarrow> string \<Rightarrow> 'f pstate \<Rightarrow> (fault + 'f pstate) option" where
  "parse_loop env f st =
     (case fgets (TERM_CONFIG_LENGTH env) f of
        None \<Rightarrow> Some (Inr st)
      | Some (chunk, f') \<Rightarrow>
          (case parse_line env (cstr chunk) st of
             Inl e \<Rightarrow> Some (Inl e)
           | Inr st' \<Rightarrow> parse_loop env f' st'))"

definition config_path :: "'f env \<Rightarrow> 'f globals \<Rightarrow> string" where
  "config_path env s =
     (case configFileName s of
        None \<Rightarrow> HOME env @ TERM_CONFIG_DIR env @ TERM_NAME env @ ''.conf''
      | Some n \<Rightarrow> n)"

definition parseSettings :: "'f env \<Rightarrow> 'f globals \<Rightarrow> (fault + 'f globals) option" where
  "parseSettings env s =
     (let s1 = (if configFileName s = None then s\<lparr>configFileName := Some (config_path env s)\<rparr>
                else s\<lparr>defaultConfigFile := False\<rparr>)
      in case fopen env (config_path env s) of
           None \<Rightarrow> Some (Inr (printLog (Log_config_not_found (config_path env s)) s1))
         | Some f \<Rightarrow>
             (case parse_loop env f (None, None, s1\<lparr>keyCount := 0\<rparr>) of
                None \<Rightarrow> None
              | Some (Inl e) \<Rightarrow> Some (Inl e)
              | Some (Inr (ob, vb, s2)) \<Rightarrow> Some (Inr s2)))"


section \<open>The palette\<close>

text \<open>
  The three formulas of the loop in \<^verbatim>\<open>setTermColors\<close>, for the indices below 16, below
  232 and below 256.
\<close>

definition palette_ansi :: "nat \<Rightarrow> GdkRGBA" where
  "palette_ansi i =
     \<lparr>red = of_nat ((if i AND 1 \<noteq> 0 then 0xc000 else 0) + (if i > 7 then 0x3fff else 0)) / 65535,
      green = of_nat ((if i AND 2 \<noteq> 0 then 0xc000 else 0) + (if i > 7 then 0x3fff else 0)) / 65535,
      blue = of_nat ((if i AND 4 \<noteq> 0 then 0xc000 else 0) + (if i > 7 then 0x3fff else 0)) / 65535,
      alpha = 0\<rparr>"

definition palette_cube :: "nat \<Rightarrow> GdkRGBA" where
  "palette_cube i =
     (let j = i - 16; r = j div 36; g = (j div 6) mod 6; b = j mod 6
      in \<lparr>red = of_nat (if r = 0 then 0 else r * 40 + 55) / 255,
          green = of_nat (if g = 0 then 0 else g * 40 + 55) / 255,
          blue = of_nat (if b = 0 then 0 else b * 40 + 55) / 255,
          alpha = 0\<rparr>)"

definition palette_gray :: "nat \<Rightarrow> GdkRGBA" where
  "palette_gray i =
     (let shade = 8 + (i - 232) * 10; c = of_nat (shade OR push_bit 8 shade) / 65535
      in \<lparr>red = c, green = c, blue = c, alpha = 0\<rparr>)"

function setTermColors_loop :: "nat \<Rightarrow> GdkRGBA list \<Rightarrow> GdkRGBA list" where
  "setTermColors_loop i pal =
     (if i < 256 then
        setTermColors_loop (i + 1)
          (if i < 16 then pal[i := palette_ansi i]
           else if i < 232 then pal[i := palette_cube i]
           else if i < 256 then pal[i := palette_gray i]
           else pal)
      else pal)"
  by pat_completeness auto
termination
  by (relation "measure (\<lambda>(i, pal). 256 - i)") auto

declare setTermColors_loop.simps [simp del]

text \<open>
  \<^verbatim>\<open>setTermColors\<close> refills the palette from \<^verbatim>\<open>colorCount\<close> on and hands the colours
  to the terminal; \<^verbatim>\<open>setTermFont\<close> sets the font when Pango accepts its description
  (\<^verbatim>\<open>termFont\<close>, a blank and the size in decimal); \<^verbatim>\<open>configureTerm\<close> passes the settings
  to the widget and ends with these two. The setters of VTE that only copy a setting
  are not recorded.
\<close>

definition setTermColors :: "nat \<Rightarrow> 'f globals \<Rightarrow> 'f globals" where
  "setTermColors terminal s = s\<lparr>termPalette := setTermColors_loop (colorCount s) (termPalette s)\<rparr>"

definition setTermFont :: "'f env \<Rightarrow> nat \<Rightarrow> int \<Rightarrow> 'f globals \<Rightarrow> 'f globals" where
  "setTermFont env terminal fontSize s =
     (if pango_font_description_from_string env (termFont s) fontSize
      then s\<lparr>calls := calls s @ [Set_font terminal (termFont s) fontSize],
             currentFontSize := fontSize\<rparr>
      else s)"

definition configureTerm :: "'f env \<Rightarrow> nat \<Rightarrow> 'f globals \<Rightarrow> 'f globals" where
  "configureTerm env terminal s =
     (let s1 = setTermColors terminal s in setTermFont env terminal (defaultFontSize s1) s1)"

section \<open>Tabs\<close>

text \<open>
  The notebook functions, as GTK documents them: a negative page number means the last
  page, a page number past the end does nothing, and the neighbours of the first and last
  page are themselves. Removing a page before the current one shifts the current index;
  removing the current one makes a page of GTK's choice current.
\<close>

definition gtk_notebook_get_n_pages :: "GtkNotebook \<Rightarrow> int" where
  "gtk_notebook_get_n_pages nb = int (length (pages nb))"

definition gtk_notebook_get_current_page :: "GtkNotebook \<Rightarrow> int" where
  "gtk_notebook_get_current_page nb = (if pages nb = [] then - 1 else int (current nb))"

definition gtk_notebook_set_current_page :: "GtkNotebook \<Rightarrow> int \<Rightarrow> GtkNotebook" where
  "gtk_notebook_set_current_page nb n =
     (if pages nb = [] then nb
      else if n < 0 then nb\<lparr>current := length (pages nb) - 1\<rparr>
      else if n < int (length (pages nb)) then nb\<lparr>current := nat n\<rparr>
      else nb)"

definition gtk_notebook_next_page :: "GtkNotebook \<Rightarrow> GtkNotebook" where
  "gtk_notebook_next_page nb =
     (if current nb + 1 < length (pages nb) then nb\<lparr>current := current nb + 1\<rparr> else nb)"

definition gtk_notebook_prev_page :: "GtkNotebook \<Rightarrow> GtkNotebook" where
  "gtk_notebook_prev_page nb =
     (if 0 < current nb \<and> pages nb \<noteq> [] then nb\<lparr>current := current nb - 1\<rparr> else nb)"

definition remove_nth :: "nat \<Rightarrow> 'a list \<Rightarrow> 'a list" where
  "remove_nth i xs = take i xs @ drop (Suc i) xs"

definition gtk_notebook_remove_page :: "'f env \<Rightarrow> GtkNotebook \<Rightarrow> int \<Rightarrow> GtkNotebook" where
  "gtk_notebook_remove_page env nb n =
     (if pages nb = [] \<or> int (length (pages nb)) \<le> n then nb
      else
        (let i = (if n < 0 then length (pages nb) - 1 else nat n);
             ps = remove_nth i (pages nb)
         in \<lparr>pages = ps,
             current = (if i < current nb then current nb - 1
                        else if i = current nb then gtk_neighbour_page env i (length ps)
                        else current nb)\<rparr>))"

text \<open>
  \<^verbatim>\<open>termTabOnAdd\<close> is connected to the notebook's \<^verbatim>\<open>page-added\<close> signal, so appending a
  page runs it with the new page's number.
\<close>

definition termTabOnAdd :: "GtkNotebook \<Rightarrow> nat \<Rightarrow> GtkNotebook" where
  "termTabOnAdd nb pageNum = gtk_notebook_set_current_page nb (int pageNum)"

definition gtk_notebook_append_page :: "GtkNotebook \<Rightarrow> nat \<Rightarrow> GtkNotebook" where
  "gtk_notebook_append_page nb child =
     termTabOnAdd (nb\<lparr>pages := pages nb @ [child]\<rparr>) (length (pages nb))"

text \<open>
  \<^verbatim>\<open>getTerm\<close> makes a new terminal widget, configures it and spawns the shell in it;
  \<^verbatim>\<open>termClone\<close> forks a process that runs the program again.
\<close>

definition getTerm :: "'f env \<Rightarrow> 'f globals \<Rightarrow> nat \<times> 'f globals" where
  "getTerm env s =
     (let terminal = terminals s;
          s1 = configureTerm env terminal (s\<lparr>terminals := terminals s + 1\<rparr>);
          s2 = printLog Log_shell s1;
          s3 = (case termCommand s2 of None \<Rightarrow> s2 | Some c \<Rightarrow> printLog (Log_command c) s2);
          s4 = (if workingDir s3 = None then s3\<lparr>workingDir := Some (current_dir env)\<rparr> else s3);
          s5 = printLog (Log_workdir (current_dir env)) s4
      in (terminal,
          s5\<lparr>calls := calls s5 @ [Spawn_async terminal (case workingDir s5 of None \<Rightarrow> [] | Some d \<Rightarrow> d)]\<rparr>))"

definition termClone :: "nat \<Rightarrow> 'f globals \<Rightarrow> 'f globals" where
  "termClone terminal s = s\<lparr>calls := calls s @ [Clone terminal]\<rparr>"

section \<open>Actions and events\<close>

text \<open>
  \<^verbatim>\<open>termAction\<close> returns whether it knew the action, with the new state.
\<close>

definition termAction :: "'f env \<Rightarrow> nat \<Rightarrow> string \<Rightarrow> 'f globals \<Rightarrow> (fault + bool \<times> 'f globals) option" where
  "termAction env terminal action s =
     (if strcmp action ''copy'' = 0 then
        Some (Inr (True, s\<lparr>calls := calls s @ [Copy_clipboard terminal]\<rparr>))
      else if strcmp action ''paste'' = 0 then
        Some (Inr (True, s\<lparr>calls := calls s @ [Paste_clipboard terminal]\<rparr>))
      else if strcmp action ''reload-config'' = 0 then
        (let s1 = printLog Log_reloading s;
             s2 = (if defaultConfigFile s1 then s1\<lparr>configFileName := None\<rparr> else s1)
         in case parseSettings env s2 of
              None \<Rightarrow> None
            | Some (Inl e) \<Rightarrow> Some (Inl e)
            | Some (Inr s3) \<Rightarrow> Some (Inr (True, configureTerm env terminal s3)))
      else if strcmp action ''default-config'' = 0 then
        (let s1 = printLog Log_loading_default s
         in Some (Inr (True, configureTerm env terminal (s1\<lparr>colorCount := 0\<rparr>))))
      else if strcmp action ''new-tab'' = 0 then
        (case getTerm env s of (child, s1) \<Rightarrow>
           Some (Inr (True, s1\<lparr>notebook := gtk_notebook_append_page (notebook s1) child\<rparr>)))
      else if strcmp action ''new-window'' = 0 then
        Some (Inr (True, termClone terminal s))
      else if strcmp action ''exit'' = 0 then
        Some (Inr (True, s\<lparr>main_quit := True\<rparr>))
      else if strcmp action ''inc-font-size'' = 0 then
        Some (Inr (True, setTermFont env terminal (currentFontSize s + 1) s))
      else if strcmp action ''dec-font-size'' = 0 then
        Some (Inr (True, setTermFont env terminal (currentFontSize s - 1) s))
      else if strcmp action ''default-font-size'' = 0 then
        Some (Inr (True, setTermFont env terminal (defaultFontSize s) s))
      else if strcmp action ''next-tab'' = 0 then
        Some (Inr (True, s\<lparr>notebook := gtk_notebook_next_page (notebook s)\<rparr>))
      else if strcmp action ''prev-tab'' = 0 then
        Some (Inr (True, s\<lparr>notebook := gtk_notebook_prev_page (notebook s)\<rparr>))
      else if strcmp action ''close-tab'' = 0 then
        (if gtk_notebook_get_n_pages (notebook s) = 1 then Some (Inr (True, s))
         else
           (let s1 = s\<lparr>closeTab := True\<rparr>
            in Some (Inr (True,
                 s1\<lparr>notebook := gtk_notebook_remove_page env (notebook s1)
                                    (gtk_notebook_get_current_page (notebook s1))\<rparr>))))
      else Some (Inr (False, s)))"

text \<open>
  \<^verbatim>\<open>termOnChildExit\<close> is the handler of VTE's \<^verbatim>\<open>child-exited\<close> signal; \<open>terminal\<close> is the
  widget whose child ended.
\<close>

definition termOnChildExit :: "'f env \<Rightarrow> nat \<Rightarrow> int \<Rightarrow> 'f globals \<Rightarrow> bool \<times> 'f globals" where
  "termOnChildExit env terminal status s =
     (if \<not> closeTab s then
        (if gtk_notebook_get_n_pages (notebook s) \<noteq> 1
         then (True, s\<lparr>notebook := gtk_notebook_remove_page env (notebook s)
                                     (gtk_notebook_get_current_page (notebook s))\<rparr>)
         else (True, s\<lparr>main_quit := True\<rparr>))
      else (True, s\<lparr>closeTab := False\<rparr>))"

text \<open>
  A key event carries the modifier state and the key value, of which the handler only
  uses the name (\<^verbatim>\<open>gdk_keyval_name\<close>). The two \<^verbatim>\<open>for\<close> loops of \<^verbatim>\<open>termOnKeyPress\<close>
  return the binding they stop at.
\<close>

record GdkEventKey =
  state :: "32 word"
  keyval_name :: string

function default_loop :: "string \<Rightarrow> DefaultBindings list \<Rightarrow> nat \<Rightarrow> Bindings option" where
  "default_loop name tbl i =
     (if i < defaultKeyCount tbl then
        (if strcasecmp name (key (bind (tbl ! i))) = 0 \<and> \<not> invalid (tbl ! i)
         then Some (bind (tbl ! i))
         else default_loop name tbl (i + 1))
      else None)"
  by pat_completeness auto
termination
  by (relation "measure (\<lambda>(name, tbl, i). defaultKeyCount tbl - i)") auto

declare default_loop.simps [simp del]

function user_loop :: "string \<Rightarrow> Bindings list \<Rightarrow> nat \<Rightarrow> nat \<Rightarrow> Bindings option" where
  "user_loop name arr n i =
     (if i < n then
        (if strcasecmp name (key (arr ! i)) = 0 then Some (arr ! i)
         else user_loop name arr n (i + 1))
      else None)"
  by pat_completeness auto
termination
  by (relation "measure (\<lambda>(name, arr, n, i). n - i)") auto

declare user_loop.simps [simp del]

definition run_binding :: "'f env \<Rightarrow> nat \<Rightarrow> Bindings \<Rightarrow> 'f globals \<Rightarrow> (fault + bool \<times> 'f globals) option" where
  "run_binding env terminal b s =
     (if internal b then
        (case termAction env terminal (cmd b) s of
           None \<Rightarrow> None
         | Some (Inl e) \<Rightarrow> Some (Inl e)
         | Some (Inr (known, s')) \<Rightarrow> Some (Inr (True, s')))
      else Some (Inr (True, s\<lparr>calls := calls s @ [Feed_child terminal (cmd b)]\<rparr>)))"

definition termOnKeyPress :: "'f env \<Rightarrow> nat \<Rightarrow> GdkEventKey \<Rightarrow> 'f globals \<Rightarrow> (fault + bool \<times> 'f globals) option" where
  "termOnKeyPress env terminal event s0 =
     (let s = s0\<lparr>keyState := state event AND (GDK_CONTROL_MASK OR GDK_SHIFT_MASK OR GDK_MOD1_MASK)\<rparr>
      in if keyState s = (actionKey s OR GDK_CONTROL_MASK) then
           (if atoi (keyval_name event) \<noteq> 0 then
              Some (Inr (True,
                s\<lparr>notebook := gtk_notebook_set_current_page (notebook s) (atoi (keyval_name event) - 1)\<rparr>))
            else
              (case default_loop (keyval_name event) (defaultKeyBindings s) 0 of
                 Some b \<Rightarrow> run_binding env terminal b s
               | None \<Rightarrow>
                   (case user_loop (keyval_name event) (keyBindings s) (keyCount s) 0 of
                      Some b \<Rightarrow> run_binding env terminal b s
                    | None \<Rightarrow> Some (Inr (False, s)))))
         else Some (Inr (False, s)))"


section \<open>Views of the state and a concrete setting\<close>

text \<open>
  The user bindings are the first \<^verbatim>\<open>keyCount\<close> entries of the array. The loop of
  \<^verbatim>\<open>parseSettings\<close>, when \<^verbatim>\<open>fgets\<close> makes progress, is a run over the lines that
  \<^verbatim>\<open>fgets\<close> cuts the file into.
\<close>

definition user_bindings :: "'f globals \<Rightarrow> Bindings list" where
  "user_bindings s = take (keyCount s) (keyBindings s)"

function lines_of :: "nat \<Rightarrow> string \<Rightarrow> string list" where
  "lines_of n f =
     (case fgets n f of
        None \<Rightarrow> []
      | Some (chunk, f') \<Rightarrow> if length f' < length f then cstr chunk # lines_of n f' else [])"
  by pat_completeness auto
termination
  by (relation "measure (\<lambda>(n, f). length f)") auto

declare lines_of.simps [simp del]

primrec run_lines :: "'f env \<Rightarrow> string list \<Rightarrow> 'f pstate \<Rightarrow> fault + 'f pstate" where
  "run_lines env [] st = Inr st"
| "run_lines env (l # ls) st =
     (case parse_line env l st of Inl e \<Rightarrow> Inl e | Inr st' \<Rightarrow> run_lines env ls st')"

text \<open>
  A concrete setting for the examples: sample values for the macros of the header, a
  home directory, and a file system given by \<open>files\<close>. \<open>one_file\<close> is a file system
  with a single file.
\<close>

definition ex_env :: "(string \<Rightarrow> string option) \<Rightarrow> unit env" where
  "ex_env files =
     \<lparr>TERM_NAME = ''kermit'', TERM_CONFIG_DIR = ''/.config/'', TERM_CONFIG_LENGTH = 64,
      TERM_OPACITY = (), TERM_FONT = ''monospace'', TERM_FONT_DEFAULT_SIZE = 9,
      TERM_LOCALE = ''en_US.UTF-8'', TERM_WORD_CHARS = ''-./?%&#_=+@~'',
      TERM_BACKGROUND = 0x000000, TERM_FOREGROUND = 0xffffff, TERM_BOLD_COLOR = 0xffffff,
      TERM_CURSOR_COLOR = 0xffffff, TERM_CURSOR_FG = 0xffffff,
      HOME = ''/home/u'', current_dir = ''/home/u'',
      fopen = files, atof = (\<lambda>v. ()),
      pango_font_description_from_string = (\<lambda>font size. True),
      gtk_neighbour_page = (\<lambda>i n. if i < n then i else n - 1)\<rparr>"

definition one_file :: "string \<Rightarrow> string \<Rightarrow> string \<Rightarrow> string option" where
  "one_file path content p = (if p = path then Some content else None)"

definition no_file :: "string \<Rightarrow> string option" where
  "no_file p = None"

definition ex_path :: string where
  "ex_path = ''/home/u/.config/kermit.conf''"

definition ex_start :: "unit globals" where
  "ex_start = initial_globals (ex_env no_file) None None None False"

definition tab_of :: "'f pstate \<Rightarrow> int" where
  "tab_of st = tabPosition (snd (snd st))"

text \<open>
  The palette formulas in closed form: for an index below 16, bit 0, 1 and 2 of the
  index give red, green and blue the value 0xc000 and bit 3 adds 0x3fff to each of them;
  below 232, the coordinates of a 6 by 6 by 6 cube; from 232 on, a shade of grey in both
  bytes of a 16-bit value. \<open>generated\<close> is what the loop of \<^verbatim>\<open>setTermColors\<close> stores at
  an index.
\<close>

definition ansi_channel :: "nat \<Rightarrow> nat \<Rightarrow> rat" where
  "ansi_channel i k = of_nat ((if bit i k then 0xc000 else 0) + (if bit i 3 then 0x3fff else 0)) / 65535"

definition cube_channel :: "nat \<Rightarrow> rat" where
  "cube_channel x = (if x = 0 then 0 else of_nat (x * 40 + 55) / 255)"

definition gray_channel :: "nat \<Rightarrow> rat" where
  "gray_channel i = (let shade = 8 + (i - 232) * 10 in of_nat (256 * shade + shade) / 65535)"

definition documented_color :: "nat \<Rightarrow> GdkRGBA" where
  "documented_color i =
     (if i < 16 then
        \<lparr>red = ansi_channel i 0, green = ansi_channel i 1, blue = ansi_channel i 2, alpha = 0\<rparr>
      else if i < 232 then
        \<lparr>red = cube_channel ((i - 16) div 36), green = cube_channel ((i - 16) div 6 mod 6),
         blue = cube_channel ((i - 16) mod 6), alpha = 0\<rparr>
      else
        \<lparr>red = gray_channel i, green = gray_channel i, blue = gray_channel i, alpha = 0\<rparr>)"

definition generated :: "nat \<Rightarrow> GdkRGBA" where
  "generated i = (if i < 16 then palette_ansi i else if i < 232 then palette_cube i else palette_gray i)"

text \<open>
  Key resolution in the words of the specification: nothing when the modifiers are not
  the armed combination; tab \<open>n - 1\<close> when the key's name reads as a non-zero integer
  \<open>n\<close>; else the first default binding whose key matches without regard to case and
  that is not invalidated; else the first user binding whose key matches; else nothing.
  \<open>perform\<close> carries a resolution out.
\<close>

datatype resolution = PassThrough | SelectTab int | Action Bindings

definition matches :: "string \<Rightarrow> string \<Rightarrow> bool" where
  "matches name k = (map tolower name = map tolower k)"

definition armed :: "32 word \<Rightarrow> 32 word \<Rightarrow> bool" where
  "armed mods actionMod =
     (mods AND (GDK_CONTROL_MASK OR GDK_SHIFT_MASK OR GDK_MOD1_MASK) = (actionMod OR GDK_CONTROL_MASK))"

definition resolve :: "string \<Rightarrow> 32 word \<Rightarrow> 32 word \<Rightarrow> DefaultBindings list \<Rightarrow> Bindings list \<Rightarrow> resolution" where
  "resolve name mods actionMod defaults users =
     (if \<not> armed mods actionMod then PassThrough
      else if atoi name \<noteq> 0 then SelectTab (atoi name - 1)
      else
        (case find (\<lambda>d. matches name (key (bind d)) \<and> \<not> invalid d) defaults of
           Some d \<Rightarrow> Action (bind d)
         | None \<Rightarrow>
             (case find (\<lambda>b. matches name (key b)) users of
                Some b \<Rightarrow> Action b
              | None \<Rightarrow> PassThrough)))"

definition perform :: "'f env \<Rightarrow> nat \<Rightarrow> resolution \<Rightarrow> 'f globals \<Rightarrow> (fault + bool \<times> 'f globals) option" where
  "perform env terminal r s =
     (case r of
        PassThrough \<Rightarrow> Some (Inr (False, s))
      | SelectTab n \<Rightarrow> Some (Inr (True, s\<lparr>notebook := gtk_notebook_set_current_page (notebook s) n\<rparr>))
      | Action b \<Rightarrow> run_binding env terminal b s)"

definition key_mask :: "32 word \<Rightarrow> 32 word" where
  "key_mask st = st AND (GDK_CONTROL_MASK OR GDK_SHIFT_MASK OR GDK_MOD1_MASK)"


text \<open>Sessions with one and two tabs, a session with user bindings, and a key event
  with Control and Alt held.\<close>

definition two_tabs :: "unit globals" where
  "two_tabs = ex_start\<lparr>notebook := \<lparr>pages = [0, 1], current = 1\<rparr>, terminals := 2\<rparr>"


definition one_tab :: "unit globals" where
  "one_tab = ex_start\<lparr>notebook := \<lparr>pages = [0], current = 0\<rparr>, terminals := 1\<rparr>"

definition ex_bound :: "unit globals" where
  "ex_bound = two_tabs\<lparr>keyBindings :=
       [\<lparr>internal = False, key = ''q'', cmd = ''ls''\<rparr>,
        \<lparr>internal = False, key = ''z'', cmd = ''top''\<rparr>,
        \<lparr>internal = True, key = ''1'', cmd = ''exit''\<rparr>] @ replicate 61 zero_Bindings,
     keyCount := 3\<rparr>"

definition ex_key :: "string \<Rightarrow> GdkEventKey" where
  "ex_key name = \<lparr>state = GDK_CONTROL_MASK OR GDK_MOD1_MASK, keyval_name = name\<rparr>"


text \<open>
  What one line of the file can do to the variables: nothing, set one setting, add a
  binding (which also invalidates default bindings), or store a palette colour.
\<close>

inductive line_effect :: "'f env \<Rightarrow> 'f globals \<Rightarrow> 'f globals \<Rightarrow> bool" for env :: "'f env" and s :: "'f globals" where
  le_skip: "line_effect env s s"
| le_locale: "line_effect env s (s\<lparr>termLocale := v\<rparr>)"
| le_char: "line_effect env s (s\<lparr>termWordChars := v\<rparr>)"
| le_key: "line_effect env s (s\<lparr>actionKey := k\<rparr>)"
| le_bind: "keyCount s < TERM_CONFIG_LENGTH env \<Longrightarrow>
    line_effect env s
      ((printLog (Log_cmd (Suc (keyCount s)) (key b) (cmd b))
          (s\<lparr>keyBindings := (keyBindings s)[keyCount s := b]\<rparr>))
        \<lparr>defaultKeyBindings := invalidateDefaultBinding b (defaultKeyBindings s),
         keyCount := Suc (keyCount s)\<rparr>)"
| le_tab: "line_effect env s (s\<lparr>tabPosition := p\<rparr>)"
| le_font: "line_effect env s (s\<lparr>defaultFontSize := n, termFont := f\<rparr>)"
| le_opacity: "line_effect env s (s\<lparr>termOpacity := x\<rparr>)"
| le_cursor: "line_effect env s (s\<lparr>termCursorColor := c\<rparr>)"
| le_cursor_foreground: "line_effect env s (s\<lparr>termCursorFg := c\<rparr>)"
| le_cursor_shape: "line_effect env s (s\<lparr>termCursorShape := h\<rparr>)"
| le_foreground: "line_effect env s (s\<lparr>termForeground := c\<rparr>)"
| le_foreground_bold: "line_effect env s (s\<lparr>termBoldColor := c\<rparr>)"
| le_background: "line_effect env s (s\<lparr>termBackground := c\<rparr>)"
| le_color: "i < TERM_PALETTE_SIZE \<Longrightarrow>
    line_effect env s (s\<lparr>termPalette := (termPalette s)[i := g], colorCount := Suc (colorCount s)\<rparr>)"


text \<open>
  Invalidating for a list of bindings in turn; the settings that the specification calls
  the Configuration, as a tuple; the built-in values of these; and the state in which the
  loop of \<^verbatim>\<open>parseSettings\<close> starts, but for \<^verbatim>\<open>keyCount\<close>.
\<close>

definition invalidate_all :: "Bindings list \<Rightarrow> DefaultBindings list \<Rightarrow> DefaultBindings list" where
  "invalidate_all bs ds = foldl (\<lambda>ds b. invalidateDefaultBinding b ds) ds bs"


definition configuration_of ::
  "'f globals \<Rightarrow> string \<times> string \<times> string \<times> int \<times> 'f \<times> (int \<times> int \<times> int \<times> int \<times> int)
     \<times> VteCursorShape \<times> 32 word \<times> int \<times> nat \<times> GdkRGBA list" where
  "configuration_of s =
     (termLocale s, termWordChars s, termFont s, defaultFontSize s, termOpacity s,
      (termForeground s, termBackground s, termBoldColor s, termCursorColor s, termCursorFg s),
      termCursorShape s, actionKey s, tabPosition s, colorCount s, termPalette s)"

definition builtin_configuration ::
  "'f env \<Rightarrow> string \<times> string \<times> string \<times> int \<times> 'f \<times> (int \<times> int \<times> int \<times> int \<times> int)
     \<times> VteCursorShape \<times> 32 word \<times> int \<times> nat \<times> GdkRGBA list" where
  "builtin_configuration env =
     (TERM_LOCALE env, TERM_WORD_CHARS env, TERM_FONT env, TERM_FONT_DEFAULT_SIZE env,
      TERM_OPACITY env,
      (TERM_FOREGROUND env, TERM_BACKGROUND env, TERM_BOLD_COLOR env, TERM_CURSOR_COLOR env,
       TERM_CURSOR_FG env),
      VTE_CURSOR_SHAPE_BLOCK, GDK_MOD1_MASK, 0, 0, replicate TERM_PALETTE_SIZE zero_GdkRGBA)"

definition start_of_pass :: "'f env \<Rightarrow> 'f globals \<Rightarrow> 'f globals" where
  "start_of_pass env s =
     (if configFileName s = None then s\<lparr>configFileName := Some (config_path env s)\<rparr>
      else s\<lparr>defaultConfigFile := False\<rparr>)"


text \<open>
  Configuration files for the examples (the first is the example of the specification),
  the states that loading two of them from the start leaves, and what the examples look at
  in a state.
\<close>

definition DQ :: char where
  "DQ = CHR 0x22"

definition ex_conf_spec :: string where
  "ex_conf_spec =
     ''key alt'' @ [NL] @ ''bindi q~reset'' @ [DQ, NL] @ ''bindx t~ls'' @ [DQ, NL]
     @ ''tab top'' @ [NL] @ ''opacity 0.8'' @ [NL] @ ''foreground #ffffff'' @ [NL]"

definition ex_conf_override :: string where
  "ex_conf_override = ''tab top'' @ [NL] @ ''bindi x~'' @ [DQ] @ ''exit'' @ [DQ, NL]"

definition ex_conf_plain :: string where
  "ex_conf_plain = ''tab top'' @ [NL]"


definition ex_overridden :: "unit globals" where
  "ex_overridden =
     ex_start\<lparr>configFileName := Some ex_path, tabPosition := 1,
       keyBindings := (keyBindings ex_start)[0 := \<lparr>internal = True, key = ''x'', cmd = ''exit''\<rparr>],
       keyCount := 1,
       defaultKeyBindings :=
         invalidateDefaultBinding \<lparr>internal = True, key = ''x'', cmd = ''exit''\<rparr>
           defaultKeyBindings_init\<rparr>"


definition flag_and_bindings :: "nat \<Rightarrow> 'f globals \<Rightarrow> bool \<times> Bindings list" where
  "flag_and_bindings i s = (invalid (defaultKeyBindings s ! i), user_bindings s)"

definition kept :: "'f globals \<Rightarrow> int \<times> Bindings list \<times> log_msg list" where
  "kept s = (tabPosition s, user_bindings s, stderr s)"


declare parse_loop.simps [code]

section \<open>Facts about the library functions\<close>

lemma strcmp_eq_0 [simp]: "strcmp a b = 0 \<longleftrightarrow> a = b"
  by (simp add: strcmp_def)

lemma strncmp_strlen: "strncmp a b (strlen a) = 0 \<longleftrightarrow> prefix a b"
proof -
  have "a = take (length a) b \<longleftrightarrow> prefix a b"
  proof
    assume "a = take (length a) b"
    then have "b = a @ drop (length a) b" by (metis append_take_drop_id)
    then show "prefix a b" by (metis prefixI)
  next
    assume "prefix a b"
    then show "a = take (length a) b" by (auto simp: prefix_def)
  qed
  then show ?thesis by (simp add: strncmp_def strlen_def)
qed

lemma isspace_NL [simp]: "isspace NL"
  by (simp add: isspace_def NL_def)

lemma isspace_blank [simp]: "isspace (CHR '' '')"
  by (simp add: isspace_def)

lemma scan_token_word:
  assumes "w \<noteq> []" and "\<forall>c \<in> set w. \<not> isspace c" and "isspace d"
  shows "scan_token (w @ d # r) = Some (w, d # r)"
proof -
  obtain a w' where w: "w = a # w'" using assms(1) by (cases w) auto
  have "dropWhile isspace (w @ d # r) = w @ d # r" using assms(2) by (simp add: w)
  moreover have "takeWhile (\<lambda>c. \<not> isspace c) (w @ d # r) = w"
    using assms(2,3) by simp
  moreover have "dropWhile (\<lambda>c. \<not> isspace c) (w @ d # r) = d # r"
    using assms(2,3) by simp
  ultimately show ?thesis by (simp add: scan_token_def w)
qed

lemma scan_token_blank: "scan_token (CHR '' '' # r) = scan_token r"
  by (simp add: scan_token_def)

section \<open>The \<^verbatim>\<open>tab\<close> directive\<close>

text \<open>
  C9 (as amended). A line \<^verbatim>\<open>tab <value>\<close> sets the tab position to bottom (0) when the
  value is a prefix of \<^verbatim>\<open>bottom\<close> (the word itself, or \<^verbatim>\<open>b\<close>, \<^verbatim>\<open>bo\<close>, ..., since
  the comparison is cut at the length of the value), and to top (1) for every other value.
\<close>

theorem parse_tab_prefix_of_bottom:
  assumes "v \<noteq> []" and "\<forall>c \<in> set v. \<not> isspace c"
  shows "parse_line env (''tab '' @ v @ [NL]) (ob, vb, s) =
     Inr (Some ''tab'', Some v, s\<lparr>tabPosition := (if prefix v ''bottom'' then 0 else 1)\<rparr>)"
proof -
  have 1: "scan_token (''tab '' @ v @ [NL]) = Some (''tab'', CHR '' '' # v @ [NL])"
    using scan_token_word[of "''tab''" "CHR '' ''" "v @ [NL]"] by (simp add: isspace_def)
  have 2: "scan_token (CHR '' '' # v @ [NL]) = Some (v, [NL])"
    using scan_token_word[OF assms, of NL "[]"] by (simp add: scan_token_blank)
  have 3: "sscanf_s_s (''tab '' @ v @ [NL]) (ob, vb) = (Some ''tab'', Some v)"
    using 1 2 by (simp add: sscanf_s_s_def)
  show ?thesis
    using 3 by (simp add: parse_line_def strlen_def strncmp_def size_t_sub_def parse_tab_def
        with_value_def flip: strncmp_strlen[unfolded strncmp_def strlen_def])
qed

theorem parse_tab_prefix_of_bottom_witness:
  "map_sum id tab_of (parse_line (ex_env no_file) (''tab bottom'' @ [NL]) (None, None, ex_start\<lparr>tabPosition := 1\<rparr>)) = Inr 0
   \<and> map_sum id tab_of (parse_line (ex_env no_file) (''tab top'' @ [NL]) (None, None, ex_start)) = Inr 1"
proof -
  have a: "''bottom'' \<noteq> [] \<and> (\<forall>c \<in> set ''bottom''. \<not> isspace c)"
    by (simp add: isspace_def)
  have b: "''top'' \<noteq> [] \<and> (\<forall>c \<in> set ''top''. \<not> isspace c)"
    by (simp add: isspace_def)
  show ?thesis
    using parse_tab_prefix_of_bottom[of "''bottom''" "ex_env no_file" None None "ex_start\<lparr>tabPosition := 1\<rparr>"]
      parse_tab_prefix_of_bottom[of "''top''" "ex_env no_file" None None ex_start] a b
    by (simp add: tab_of_def)
qed

text \<open>
  The value \<^verbatim>\<open>bot\<close> is not \<^verbatim>\<open>bottom\<close>, yet after \<^verbatim>\<open>tab top\<close> has set the position to
  top, the line \<^verbatim>\<open>tab bot\<close> sets it to bottom.
\<close>

theorem parse_tab_bot_counterexample:
  "''bot'' \<noteq> ''bottom''
   \<and> map_sum id tab_of (parse_line (ex_env no_file) (''tab bot'' @ [NL]) (None, None, ex_start\<lparr>tabPosition := 1\<rparr>)) = Inr 0"
  by (simp add: parse_line_def strlen_def strncmp_def size_t_sub_def parse_tab_def with_value_def
      sscanf_s_s_def scan_token_def isspace_def NL_def tab_of_def)


section \<open>The palette formulas\<close>

lemma setTermColors_loop_length [simp]: "length (setTermColors_loop c pal) = length pal"
  by (induction c pal rule: setTermColors_loop.induct) (subst setTermColors_loop.simps, simp)

lemma setTermColors_loop_nth:
  "i < length pal \<Longrightarrow>
   setTermColors_loop c pal ! i = (if c \<le> i \<and> i < 256 then generated i else pal ! i)"
proof (induction c pal rule: setTermColors_loop.induct)
  case (1 c pal)
  show ?case
  proof (cases "c < 256")
    case False
    then show ?thesis by (subst setTermColors_loop.simps) simp
  next
    case True
    let ?pal = "(if c < 16 then pal[c := palette_ansi c]
           else if c < 232 then pal[c := palette_cube c]
           else if c < 256 then pal[c := palette_gray c]
           else pal)"
    have eq: "?pal = pal[c := generated c]" using True by (simp add: generated_def)
    have "setTermColors_loop c pal ! i = setTermColors_loop (c + 1) ?pal ! i"
      using True by (subst setTermColors_loop.simps) simp
    also have "\<dots> = (if c + 1 \<le> i \<and> i < 256 then generated i else ?pal ! i)"
      using "1.IH"[OF True] "1.prems" by (simp only: eq length_list_update)
    also have "\<dots> = (if c \<le> i \<and> i < 256 then generated i else pal ! i)"
    proof (cases "i = c")
      case True
      then show ?thesis using \<open>c < 256\<close> "1.prems" by (simp add: eq)
    next
      case False
      then show ?thesis by (auto simp: eq)
    qed
    finally show ?thesis .
  qed
qed

lemma and_bit0: "(i::nat) AND 1 \<noteq> 0 \<longleftrightarrow> bit i 0"
  using and_exp_eq_0_iff_not_bit[of i 0] by simp

lemma and_bit1: "(i::nat) AND 2 \<noteq> 0 \<longleftrightarrow> bit i 1"
  using and_exp_eq_0_iff_not_bit[of i 1] by simp

lemma and_bit2: "(i::nat) AND 4 \<noteq> 0 \<longleftrightarrow> bit i 2"
  using and_exp_eq_0_iff_not_bit[of i 2] by simp

lemma bright_bit3: "(i::nat) < 16 \<Longrightarrow> 7 < i \<longleftrightarrow> bit i 3"
proof -
  assume "i < 16"
  then have "7 < i \<longleftrightarrow> odd (i div 8)" by presburger
  then show ?thesis by (simp add: bit_iff_odd)
qed

lemma palette_ansi_documented:
  assumes "i < 16"
  shows "palette_ansi i = documented_color i"
  unfolding palette_ansi_def documented_color_def ansi_channel_def and_bit0 and_bit1 and_bit2
    bright_bit3[OF assms]
  using assms by (simp only: if_True)

lemma palette_cube_documented: "16 \<le> i \<Longrightarrow> i < 232 \<Longrightarrow> palette_cube i = documented_color i"
  by (simp add: palette_cube_def documented_color_def cube_channel_def Let_def)

lemma gray_replicated:
  assumes "s < 256"
  shows "(s::nat) OR push_bit 8 s = 256 * s + s"
proof -
  have "take_bit 8 s = s" using assms by (simp add: take_bit_nat_eq_self_iff)
  then have hi: "\<not> bit s n" if "8 \<le> n" for n
    using that bit_take_bit_iff[of 8 s n] by simp
  have "s AND push_bit 8 s = 0"
    by (rule bit_eqI) (auto simp: bit_simps hi)
  then have "s + push_bit 8 s = s OR push_bit 8 s"
    by (rule disjunctive_add_eq_or)
  then show ?thesis by (simp add: push_bit_eq_mult)
qed

lemma palette_gray_documented:
  assumes "232 \<le> i" and "i < 256"
  shows "palette_gray i = documented_color i"
proof -
  have "8 + (i - 232) * 10 < 256" using assms by simp
  from gray_replicated[OF this] show ?thesis
    using assms by (simp add: palette_gray_def documented_color_def gray_channel_def Let_def)
qed

lemma generated_documented: "i < 256 \<Longrightarrow> generated i = documented_color i"
  using palette_ansi_documented[of i] palette_cube_documented[of i] palette_gray_documented[of i]
  by (simp add: generated_def)

lemma ex_start_palette: "length (termPalette ex_start) = TERM_PALETTE_SIZE \<and> colorCount ex_start = 0"
  by (simp add: ex_start_def initial_globals_def)

text \<open>
  C4 (as amended). Every palette entry at an index from the override count up to 255 is
  set by the documented formulas, where for an index below 16 the bright bit (bit 3) adds
  0x3fff/65535 to all three channels, whether the colour bits set them or not (so index 8
  has all channels 0x3fff/65535): bits 0, 1 and 2 give red, green and blue 0xc000/65535;
  from 16 to 231 the cube formula over 255; from 232 to 255 the shade \<open>8 + (i - 232) * 10\<close>
  in the high and the low byte over 65535. The generated palette depends on nothing but
  the override count and the palette before.
\<close>

theorem setTermColors_documented_formulas:
  assumes "length (termPalette s) = TERM_PALETTE_SIZE" and "colorCount s \<le> i" and "i < 256"
  shows "termPalette (setTermColors terminal s) ! i = documented_color i
    \<and> (\<forall>terminal' s'. colorCount s' = colorCount s \<and> termPalette s' = termPalette s \<longrightarrow>
          termPalette (setTermColors terminal' s') = termPalette (setTermColors terminal s))"
  using assms
  by (simp add: setTermColors_def setTermColors_loop_nth TERM_PALETTE_SIZE_def generated_documented)

theorem setTermColors_documented_formulas_witness:
  "length (termPalette ex_start) = TERM_PALETTE_SIZE \<and> colorCount ex_start \<le> 15
   \<and> termPalette (setTermColors 0 ex_start) ! 15 = \<lparr>red = 1, green = 1, blue = 1, alpha = 0\<rparr>
   \<and> termPalette (setTermColors 0 ex_start) ! 232 =
       \<lparr>red = 2056 / 65535, green = 2056 / 65535, blue = 2056 / 65535, alpha = 0\<rparr>
   \<and> termPalette (setTermColors 1 (ex_start\<lparr>main_quit := True\<rparr>)) = termPalette (setTermColors 0 ex_start)"
proof -
  have len: "length (termPalette ex_start) = TERM_PALETTE_SIZE"
    using ex_start_palette by simp
  have a: "colorCount ex_start \<le> 15" and b: "colorCount ex_start \<le> 232"
    using ex_start_palette by simp_all
  have c: "(15::nat) < 256" and d: "(232::nat) < 256"
    by simp_all
  have "termPalette (setTermColors 0 ex_start) ! 15 = documented_color 15"
    using setTermColors_documented_formulas[of ex_start 15 0, OF len a c] by (rule conjunct1)
  moreover have "termPalette (setTermColors 0 ex_start) ! 232 = documented_color 232"
    using setTermColors_documented_formulas[of ex_start 232 0, OF len b d] by (rule conjunct1)
  moreover have "termPalette (setTermColors 1 (ex_start\<lparr>main_quit := True\<rparr>))
      = termPalette (setTermColors 0 ex_start)"
    by (rule setTermColors_documented_formulas[of ex_start 15 0, OF len a c, THEN conjunct2, rule_format])
      simp
  ultimately show ?thesis
    using len a
    by (simp add: documented_color_def ansi_channel_def gray_channel_def bit_Suc_0_iff)
qed

text \<open>
  Index 8 (bright black) does not have all channels 0: the bright bit alone gives each
  channel 0x3fff/65535.
\<close>

theorem bright_black_counterexample:
  "termPalette (setTermColors 0 ex_start) ! 8 =
     \<lparr>red = 16383 / 65535, green = 16383 / 65535, blue = 16383 / 65535, alpha = 0\<rparr>
   \<and> red (termPalette (setTermColors 0 ex_start) ! 8) \<noteq> 0"
  using ex_start_palette
  by (simp add: setTermColors_def setTermColors_loop_nth TERM_PALETTE_SIZE_def generated_def
      palette_ansi_def)


section \<open>Closing tabs and the end of a child\<close>

lemma length_remove_nth: "i < length xs \<Longrightarrow> length (remove_nth i xs) = length xs - 1"
  by (simp add: remove_nth_def)

lemma remove_current_page:
  assumes "current nb < length (pages nb)"
  shows "gtk_notebook_remove_page env nb (gtk_notebook_get_current_page nb) =
    \<lparr>pages = remove_nth (current nb) (pages nb),
     current = gtk_neighbour_page env (current nb) (length (pages nb) - 1)\<rparr>"
proof -
  have "pages nb \<noteq> []" using assms by auto
  then show ?thesis
    using assms
    by (simp add: gtk_notebook_remove_page_def gtk_notebook_get_current_page_def Let_def
        length_remove_nth)
qed

lemma remove_page_keeps_one:
  "1 < length (pages nb) \<Longrightarrow> 1 \<le> length (pages (gtk_notebook_remove_page env nb n))"
  by (auto simp: gtk_notebook_remove_page_def Let_def remove_nth_def)

lemma close_tab_eq:
  "termAction env t ''close-tab'' s =
     (if gtk_notebook_get_n_pages (notebook s) = 1 then Some (Inr (True, s))
      else Some (Inr (True, s\<lparr>closeTab := True,
             notebook := gtk_notebook_remove_page env (notebook s)
                           (gtk_notebook_get_current_page (notebook s))\<rparr>)))"
  by (simp add: termAction_def Let_def)


lemmas ex_defs = ex_bound_def two_tabs_def one_tab_def ex_start_def initial_globals_def ex_env_def
  ex_key_def GDK_CONTROL_MASK_def GDK_MOD1_MASK_def GDK_SHIFT_MASK_def key_mask_def armed_def

lemmas atoi_defs = atoi_def strtol10_def split_sign_def isspace_def isdigit_def digit_value_def
  long_of_def int_of_long_def


text \<open>
  C6 (as amended). A child-exit notification that finds the close-pending latch set
  clears the latch and does nothing else: no tab is removed and the session goes on, so
  an explicit close followed by its notification removes exactly one tab. A child-exit
  with the latch clear removes the current tab (the one shown, which is the tab of the
  ended child only when that one is shown) when more than one tab exists, and ends the
  whole session when there is exactly one tab.
\<close>

theorem termOnChildExit_cases:
  "(closeTab s \<longrightarrow> termOnChildExit env t st s = (True, s\<lparr>closeTab := False\<rparr>))
   \<and> (\<not> closeTab s \<and> length (pages (notebook s)) = 1 \<longrightarrow>
        termOnChildExit env t st s = (True, s\<lparr>main_quit := True\<rparr>))
   \<and> (\<not> closeTab s \<and> 1 < length (pages (notebook s))
        \<and> current (notebook s) < length (pages (notebook s)) \<longrightarrow>
        termOnChildExit env t st s =
          (True, s\<lparr>notebook :=
             \<lparr>pages = remove_nth (current (notebook s)) (pages (notebook s)),
              current = gtk_neighbour_page env (current (notebook s))
                          (length (pages (notebook s)) - 1)\<rparr>\<rparr>))
   \<and> (1 < length (pages (notebook s)) \<and> current (notebook s) < length (pages (notebook s)) \<longrightarrow>
        (\<exists>s1. termAction env t ''close-tab'' s = Some (Inr (True, s1))
           \<and> length (pages (notebook s1)) + 1 = length (pages (notebook s))
           \<and> termOnChildExit env t' st s1 = (True, s1\<lparr>closeTab := False\<rparr>)))"
proof (intro conjI impI)
  assume "closeTab s"
  then show "termOnChildExit env t st s = (True, s\<lparr>closeTab := False\<rparr>)"
    by (simp add: termOnChildExit_def)
next
  assume "\<not> closeTab s \<and> length (pages (notebook s)) = 1"
  then show "termOnChildExit env t st s = (True, s\<lparr>main_quit := True\<rparr>)"
    by (simp add: termOnChildExit_def gtk_notebook_get_n_pages_def)
next
  assume a: "\<not> closeTab s \<and> 1 < length (pages (notebook s))
        \<and> current (notebook s) < length (pages (notebook s))"
  then show "termOnChildExit env t st s =
          (True, s\<lparr>notebook :=
             \<lparr>pages = remove_nth (current (notebook s)) (pages (notebook s)),
              current = gtk_neighbour_page env (current (notebook s))
                          (length (pages (notebook s)) - 1)\<rparr>\<rparr>)"
    by (simp add: termOnChildExit_def gtk_notebook_get_n_pages_def remove_current_page)
next
  assume a: "1 < length (pages (notebook s)) \<and> current (notebook s) < length (pages (notebook s))"
  let ?s1 = "s\<lparr>closeTab := True,
             notebook := gtk_notebook_remove_page env (notebook s)
                           (gtk_notebook_get_current_page (notebook s))\<rparr>"
  have "termAction env t ''close-tab'' s = Some (Inr (True, ?s1))"
    using a by (simp add: close_tab_eq gtk_notebook_get_n_pages_def)
  moreover have "length (pages (notebook ?s1)) + 1 = length (pages (notebook s))"
    using a by (auto simp: remove_current_page length_remove_nth)
  moreover have "termOnChildExit env t' st ?s1 = (True, ?s1\<lparr>closeTab := False\<rparr>)"
    by (simp add: termOnChildExit_def)
  ultimately show "\<exists>s1. termAction env t ''close-tab'' s = Some (Inr (True, s1))
           \<and> length (pages (notebook s1)) + 1 = length (pages (notebook s))
           \<and> termOnChildExit env t' st s1 = (True, s1\<lparr>closeTab := False\<rparr>)"
    by blast
qed


theorem termOnChildExit_cases_witness:
  "termOnChildExit (ex_env no_file) 1 0 (two_tabs\<lparr>closeTab := True\<rparr>) = (True, two_tabs\<lparr>closeTab := False\<rparr>)
   \<and> termOnChildExit (ex_env no_file) 0 0 one_tab = (True, one_tab\<lparr>main_quit := True\<rparr>)
   \<and> termOnChildExit (ex_env no_file) 1 0 two_tabs
        = (True, two_tabs\<lparr>notebook := \<lparr>pages = [0], current = 0\<rparr>\<rparr>)
   \<and> (\<exists>s1. termAction (ex_env no_file) 1 ''close-tab'' two_tabs = Some (Inr (True, s1))
         \<and> length (pages (notebook s1)) = 1
         \<and> termOnChildExit (ex_env no_file) 0 0 s1 = (True, s1\<lparr>closeTab := False\<rparr>))"
proof -
  note T = termOnChildExit_cases[where env = "ex_env no_file" and st = 0 and t' = 0]
  have 1: "termOnChildExit (ex_env no_file) 1 0 (two_tabs\<lparr>closeTab := True\<rparr>)
      = (True, two_tabs\<lparr>closeTab := True\<rparr>\<lparr>closeTab := False\<rparr>)"
    by (rule T[THEN conjunct1, rule_format]) simp
  have 2: "termOnChildExit (ex_env no_file) 0 0 one_tab = (True, one_tab\<lparr>main_quit := True\<rparr>)"
    by (rule T[THEN conjunct2, THEN conjunct1, rule_format]) (simp add: ex_defs)
  have 3: "termOnChildExit (ex_env no_file) 1 0 two_tabs =
          (True, two_tabs\<lparr>notebook :=
             \<lparr>pages = remove_nth (current (notebook two_tabs)) (pages (notebook two_tabs)),
              current = gtk_neighbour_page (ex_env no_file) (current (notebook two_tabs))
                          (length (pages (notebook two_tabs)) - 1)\<rparr>\<rparr>)"
    by (rule T[THEN conjunct2, THEN conjunct2, THEN conjunct1, rule_format]) (simp add: ex_defs)
  have 4: "\<exists>s1. termAction (ex_env no_file) 1 ''close-tab'' two_tabs = Some (Inr (True, s1))
           \<and> length (pages (notebook s1)) + 1 = length (pages (notebook two_tabs))
           \<and> termOnChildExit (ex_env no_file) 0 0 s1 = (True, s1\<lparr>closeTab := False\<rparr>)"
    by (rule T[THEN conjunct2, THEN conjunct2, THEN conjunct2, rule_format]) (simp add: ex_defs)
  have l: "length (pages (notebook two_tabs)) = 2"
    by (simp add: ex_defs)
  from 4 l have 5: "\<exists>s1. termAction (ex_env no_file) 1 ''close-tab'' two_tabs = Some (Inr (True, s1))
         \<and> length (pages (notebook s1)) = 1
         \<and> termOnChildExit (ex_env no_file) 0 0 s1 = (True, s1\<lparr>closeTab := False\<rparr>)"
    by auto
  show ?thesis
    using 1 2 3 5 by (simp add: two_tabs_def ex_env_def remove_nth_def)
qed


text \<open>
  With two tabs and the second one shown, the end of the child of the first tab (number
  0) removes the second tab: tab 0, whose child ended, is the one that stays.
\<close>

theorem child_exit_background_tab_counterexample:
  "\<not> closeTab two_tabs
   \<and> pages (notebook (snd (termOnChildExit (ex_env no_file) 0 0 two_tabs))) = [0]"
  by (simp add: two_tabs_def ex_start_def initial_globals_def termOnChildExit_def
      gtk_notebook_get_n_pages_def gtk_notebook_get_current_page_def gtk_notebook_remove_page_def
      remove_nth_def Let_def)


text \<open>
  C7. The close-tab action with exactly one tab changes nothing and is no error; with two
  or more tabs it sets the close-pending latch and removes exactly one tab (the current
  one); and neither it nor a child-exit notification leaves a session that had a tab
  without one.
\<close>

theorem close_tab_cases:
  "(length (pages (notebook s)) = 1 \<longrightarrow> termAction env t ''close-tab'' s = Some (Inr (True, s)))
   \<and> (1 < length (pages (notebook s)) \<and> current (notebook s) < length (pages (notebook s)) \<longrightarrow>
        termAction env t ''close-tab'' s =
          Some (Inr (True, s\<lparr>closeTab := True, notebook :=
             \<lparr>pages = remove_nth (current (notebook s)) (pages (notebook s)),
              current = gtk_neighbour_page env (current (notebook s))
                          (length (pages (notebook s)) - 1)\<rparr>\<rparr>))
        \<and> length (remove_nth (current (notebook s)) (pages (notebook s)))
            = length (pages (notebook s)) - 1)
   \<and> (1 \<le> length (pages (notebook s)) \<longrightarrow>
        (\<forall>r s'. termAction env t ''close-tab'' s = Some (Inr (r, s')) \<longrightarrow>
           1 \<le> length (pages (notebook s')))
        \<and> 1 \<le> length (pages (notebook (snd (termOnChildExit env t st s)))))"
proof (intro conjI impI allI)
  assume "length (pages (notebook s)) = 1"
  then show "termAction env t ''close-tab'' s = Some (Inr (True, s))"
    by (simp add: close_tab_eq gtk_notebook_get_n_pages_def)
next
  assume a: "1 < length (pages (notebook s)) \<and> current (notebook s) < length (pages (notebook s))"
  then show "termAction env t ''close-tab'' s =
          Some (Inr (True, s\<lparr>closeTab := True, notebook :=
             \<lparr>pages = remove_nth (current (notebook s)) (pages (notebook s)),
              current = gtk_neighbour_page env (current (notebook s))
                          (length (pages (notebook s)) - 1)\<rparr>\<rparr>))"
    by (simp add: close_tab_eq gtk_notebook_get_n_pages_def remove_current_page)
  show "length (remove_nth (current (notebook s)) (pages (notebook s)))
            = length (pages (notebook s)) - 1"
    using a by (simp add: length_remove_nth)
next
  fix r s'
  assume a: "1 \<le> length (pages (notebook s))"
    and b: "termAction env t ''close-tab'' s = Some (Inr (r, s'))"
  show "1 \<le> length (pages (notebook s'))"
  proof (cases "length (pages (notebook s)) = 1")
    case True
    then show ?thesis using b by (simp add: close_tab_eq gtk_notebook_get_n_pages_def)
  next
    case False
    then have "1 < length (pages (notebook s))" using a by simp
    from remove_page_keeps_one[OF this] False b show ?thesis
      by (auto simp: close_tab_eq gtk_notebook_get_n_pages_def)
  qed
next
  assume a: "1 \<le> length (pages (notebook s))"
  show "1 \<le> length (pages (notebook (snd (termOnChildExit env t st s))))"
  proof (cases "length (pages (notebook s)) = 1")
    case True
    then show ?thesis by (simp add: termOnChildExit_def gtk_notebook_get_n_pages_def)
  next
    case False
    then have "1 < length (pages (notebook s))" using a by simp
    from remove_page_keeps_one[OF this] False a show ?thesis
      by (auto simp: termOnChildExit_def gtk_notebook_get_n_pages_def)
  qed
qed

theorem close_tab_cases_witness:
  "termAction (ex_env no_file) 0 ''close-tab'' one_tab = Some (Inr (True, one_tab))
   \<and> termAction (ex_env no_file) 1 ''close-tab'' two_tabs
        = Some (Inr (True, two_tabs\<lparr>closeTab := True, notebook := \<lparr>pages = [0], current = 0\<rparr>\<rparr>))
   \<and> 1 \<le> length (pages (notebook (snd (termOnChildExit (ex_env no_file) 1 0 two_tabs))))"
proof -
  note T = close_tab_cases[where env = "ex_env no_file" and st = 0]
  have 1: "termAction (ex_env no_file) 0 ''close-tab'' one_tab = Some (Inr (True, one_tab))"
    by (rule T[THEN conjunct1, rule_format]) (simp add: ex_defs)
  have 2: "termAction (ex_env no_file) 1 ''close-tab'' two_tabs =
          Some (Inr (True, two_tabs\<lparr>closeTab := True, notebook :=
             \<lparr>pages = remove_nth (current (notebook two_tabs)) (pages (notebook two_tabs)),
              current = gtk_neighbour_page (ex_env no_file) (current (notebook two_tabs))
                          (length (pages (notebook two_tabs)) - 1)\<rparr>\<rparr>))"
    by (rule T[THEN conjunct2, THEN conjunct1, rule_format, THEN conjunct1]) (simp add: ex_defs)
  have 3: "1 \<le> length (pages (notebook (snd (termOnChildExit (ex_env no_file) 1 0 two_tabs))))"
    by (rule T[THEN conjunct2, THEN conjunct2, rule_format, THEN conjunct2]) (simp add: ex_defs)
  show ?thesis
    using 1 2 3 by (simp add: two_tabs_def ex_env_def remove_nth_def)
qed


section \<open>Key resolution\<close>

lemma strcasecmp_matches: "strcasecmp a b = 0 \<longleftrightarrow> matches a b"
  by (simp add: strcasecmp_def matches_def)

lemma default_loop_find:
  "default_loop name tbl i =
     map_option bind (find (\<lambda>d. matches name (key (bind d)) \<and> \<not> invalid d) (drop i tbl))"
proof (induction name tbl i rule: default_loop.induct)
  case (1 name tbl i)
  show ?case
  proof (cases "i < length tbl")
    case False
    then show ?thesis by (subst default_loop.simps) (simp add: defaultKeyCount_def)
  next
    case True
    then have d: "drop i tbl = tbl ! i # drop (Suc i) tbl"
      by (simp add: Cons_nth_drop_Suc)
    show ?thesis
      using True "1.IH"
      by (subst default_loop.simps) (simp add: defaultKeyCount_def d strcasecmp_matches)
  qed
qed

lemma user_loop_find:
  "n \<le> length arr \<Longrightarrow>
   user_loop name arr n i = find (\<lambda>b. matches name (key b)) (drop i (take n arr))"
proof (induction name arr n i rule: user_loop.induct)
  case (1 name arr n i)
  show ?case
  proof (cases "i < n")
    case False
    then show ?thesis by (subst user_loop.simps) simp
  next
    case True
    then have d: "drop i (take n arr) = arr ! i # drop (Suc i) (take n arr)"
      using "1.prems" by (simp add: Cons_nth_drop_Suc[symmetric])
    show ?thesis
      using True "1.IH" "1.prems"
      by (subst user_loop.simps) (simp add: d strcasecmp_matches)
  qed
qed


lemma tolower_cases:
  "tolower c = c \<or> (65 \<le> (of_char c :: nat) \<and> (of_char c :: nat) \<le> 90
     \<and> (of_char (tolower c) :: nat) = of_char c + 32)"
  by (simp add: tolower_def Let_def)

lemma isspace_tolower [simp]: "isspace (tolower c) = isspace c"
  using tolower_cases[of c] by (auto simp: isspace_def Let_def)

lemma isdigit_tolower [simp]: "isdigit (tolower c) = isdigit c"
  using tolower_cases[of c] by (auto simp: isdigit_def Let_def)

lemma tolower_digit: "isdigit c \<Longrightarrow> tolower c = c"
  by (auto simp: isdigit_def tolower_def Let_def)

lemma tolower_eq_sign:
  "tolower c = CHR ''-'' \<longleftrightarrow> c = CHR ''-''" "tolower c = CHR ''+'' \<longleftrightarrow> c = CHR ''+''"
proof -
  have m: "c = CHR ''-'' \<longleftrightarrow> (of_char c :: nat) = 45" for c
    using of_char_eq_iff[of c "CHR ''-''", where ?'a = nat] by simp
  have p: "c = CHR ''+'' \<longleftrightarrow> (of_char c :: nat) = 43" for c
    using of_char_eq_iff[of c "CHR ''+''", where ?'a = nat] by simp
  show "tolower c = CHR ''-'' \<longleftrightarrow> c = CHR ''-''"
    using tolower_cases[of c] by (auto simp: m)
  show "tolower c = CHR ''+'' \<longleftrightarrow> c = CHR ''+''"
    using tolower_cases[of c] by (auto simp: p)
qed

lemma split_sign_tolower:
  "split_sign (map tolower t) = (fst (split_sign t), map tolower (snd (split_sign t)))"
  by (cases t) (simp_all add: split_sign_def tolower_eq_sign)

lemma digits_tolower: "takeWhile isdigit (map tolower u) = takeWhile isdigit u"
proof -
  have "takeWhile isdigit (map tolower u) = map tolower (takeWhile isdigit u)"
    by (simp add: takeWhile_map comp_def)
  also have "\<dots> = takeWhile isdigit u"
    by (rule map_idI) (auto dest: set_takeWhileD simp: tolower_digit)
  finally show ?thesis .
qed

lemma atoi_tolower: "atoi (map tolower s) = atoi s"
proof -
  have "dropWhile isspace (map tolower s) = map tolower (dropWhile isspace s)"
    by (simp add: dropWhile_map comp_def)
  then show ?thesis
    by (simp add: atoi_def strtol10_def split_sign_tolower digits_tolower split: prod.splits)
qed

lemma matches_atoi: "matches a b \<Longrightarrow> atoi a = atoi b"
  by (metis atoi_tolower matches_def)


text \<open>
  C5. Under the armed modifier combination the handler does what the resolution order of
  the specification says: a key name that reads as a non-zero integer \<open>n\<close> selects tab
  \<open>n - 1\<close>; otherwise the first default entry, in declaration order, whose key matches
  without regard to case and which is not invalidated, is run; only when there is none,
  the first matching user binding, in load order, is run; with no match the event passes
  through. So whenever some default entry that is not invalidated matches the key, a
  default entry is run and no user binding.
\<close>

theorem termOnKeyPress_resolution_order:
  assumes "keyCount s \<le> length (keyBindings s)"
  shows "termOnKeyPress env t ev s =
      perform env t
        (resolve (keyval_name ev) (state ev) (actionKey s) (defaultKeyBindings s) (user_bindings s))
        (s\<lparr>keyState := key_mask (state ev)\<rparr>)
    \<and> (armed (state ev) (actionKey s) \<and> atoi (keyval_name ev) = 0
        \<and> (\<exists>d \<in> set (defaultKeyBindings s). matches (keyval_name ev) (key (bind d)) \<and> \<not> invalid d) \<longrightarrow>
        (\<exists>d \<in> set (defaultKeyBindings s). matches (keyval_name ev) (key (bind d)) \<and> \<not> invalid d
           \<and> termOnKeyPress env t ev s = run_binding env t (bind d) (s\<lparr>keyState := key_mask (state ev)\<rparr>)))"
proof
  show eq: "termOnKeyPress env t ev s =
      perform env t
        (resolve (keyval_name ev) (state ev) (actionKey s) (defaultKeyBindings s) (user_bindings s))
        (s\<lparr>keyState := key_mask (state ev)\<rparr>)"
    using assms
    by (simp add: termOnKeyPress_def Let_def perform_def resolve_def armed_def key_mask_def
        default_loop_find user_loop_find user_bindings_def split: option.splits)
  show "armed (state ev) (actionKey s) \<and> atoi (keyval_name ev) = 0
        \<and> (\<exists>d \<in> set (defaultKeyBindings s). matches (keyval_name ev) (key (bind d)) \<and> \<not> invalid d) \<longrightarrow>
        (\<exists>d \<in> set (defaultKeyBindings s). matches (keyval_name ev) (key (bind d)) \<and> \<not> invalid d
           \<and> termOnKeyPress env t ev s = run_binding env t (bind d) (s\<lparr>keyState := key_mask (state ev)\<rparr>))"
  proof (intro impI)
    let ?P = "\<lambda>d. matches (keyval_name ev) (key (bind d)) \<and> \<not> invalid d"
    assume H: "armed (state ev) (actionKey s) \<and> atoi (keyval_name ev) = 0
        \<and> (\<exists>d \<in> set (defaultKeyBindings s). matches (keyval_name ev) (key (bind d)) \<and> \<not> invalid d)"
    then have a: "armed (state ev) (actionKey s)" and z: "atoi (keyval_name ev) = 0"
      by simp_all
    from H have "find ?P (defaultKeyBindings s) \<noteq> None"
      by (auto simp: find_None_iff)
    then obtain e where e: "find ?P (defaultKeyBindings s) = Some e" by auto
    then have "e \<in> set (defaultKeyBindings s) \<and> ?P e"
      by (auto simp: find_Some_iff)
    moreover have "termOnKeyPress env t ev s = run_binding env t (bind e) (s\<lparr>keyState := key_mask (state ev)\<rparr>)"
      using a z e by (simp add: eq resolve_def perform_def)
    ultimately show "\<exists>d \<in> set (defaultKeyBindings s). matches (keyval_name ev) (key (bind d)) \<and> \<not> invalid d
           \<and> termOnKeyPress env t ev s = run_binding env t (bind d) (s\<lparr>keyState := key_mask (state ev)\<rparr>)"
      by blast
  qed
qed

theorem termOnKeyPress_resolution_order_witness:
  "keyCount ex_bound \<le> length (keyBindings ex_bound)
   \<and> termOnKeyPress (ex_env no_file) 1 (ex_key ''Q'') ex_bound
        = Some (Inr (True, ex_bound\<lparr>keyState := 12, main_quit := True\<rparr>))
   \<and> termOnKeyPress (ex_env no_file) 1 (ex_key ''z'') ex_bound
        = Some (Inr (True, ex_bound\<lparr>keyState := 12, calls := [Feed_child 1 ''top'']\<rparr>))
   \<and> armed (state (ex_key ''Q'')) (actionKey ex_bound) \<and> atoi ''Q'' = 0
   \<and> (\<exists>d \<in> set (defaultKeyBindings ex_bound). matches ''Q'' (key (bind d)) \<and> \<not> invalid d
         \<and> termOnKeyPress (ex_env no_file) 1 (ex_key ''Q'') ex_bound
             = run_binding (ex_env no_file) 1 (bind d) (ex_bound\<lparr>keyState := 12\<rparr>))"
proof -
  have len: "keyCount ex_bound \<le> length (keyBindings ex_bound)"
    by (simp add: ex_defs)
  note T = termOnKeyPress_resolution_order[OF len, where env = "ex_env no_file" and t = 1, THEN conjunct1]
  note U = termOnKeyPress_resolution_order[OF len, where env = "ex_env no_file" and t = 1
      and ev = "ex_key ''Q''", THEN conjunct2, rule_format]
  have u: "user_bindings ex_bound = [\<lparr>internal = False, key = ''q'', cmd = ''ls''\<rparr>,
        \<lparr>internal = False, key = ''z'', cmd = ''top''\<rparr>,
        \<lparr>internal = True, key = ''1'', cmd = ''exit''\<rparr>]"
    by (simp add: user_bindings_def ex_bound_def)
  have d: "defaultKeyBindings ex_bound = defaultKeyBindings_init"
    by (simp add: ex_defs)
  have k: "actionKey ex_bound = 8" "calls ex_bound = []"
    by (simp_all add: ex_defs)
  have a: "atoi ''Q'' = 0" "atoi ''z'' = 0"
    by (simp_all add: atoi_defs)
  have 1: "resolve ''Q'' 12 8 defaultKeyBindings_init [\<lparr>internal = False, key = ''q'', cmd = ''ls''\<rparr>,
        \<lparr>internal = False, key = ''z'', cmd = ''top''\<rparr>,
        \<lparr>internal = True, key = ''1'', cmd = ''exit''\<rparr>]
      = Action \<lparr>internal = True, key = ''q'', cmd = ''exit''\<rparr>"
    by code_simp
  have 2: "resolve ''z'' 12 8 defaultKeyBindings_init [\<lparr>internal = False, key = ''q'', cmd = ''ls''\<rparr>,
        \<lparr>internal = False, key = ''z'', cmd = ''top''\<rparr>,
        \<lparr>internal = True, key = ''1'', cmd = ''exit''\<rparr>]
      = Action \<lparr>internal = False, key = ''z'', cmd = ''top''\<rparr>"
    by code_simp
  have s: "state (ex_key n) = 12" "keyval_name (ex_key n) = n" "key_mask 12 = 12" for n
    by (simp_all add: ex_defs)
  have ar: "armed (state (ex_key ''Q'')) (actionKey ex_bound)"
    by (simp add: ex_defs)
  have ex: "\<exists>d \<in> set defaultKeyBindings_init. matches ''Q'' (key (bind d)) \<and> \<not> invalid d"
    by code_simp
  have 3: "\<exists>d \<in> set (defaultKeyBindings ex_bound). matches ''Q'' (key (bind d)) \<and> \<not> invalid d
         \<and> termOnKeyPress (ex_env no_file) 1 (ex_key ''Q'') ex_bound
             = run_binding (ex_env no_file) 1 (bind d) (ex_bound\<lparr>keyState := 12\<rparr>)"
    using U ar a(1) ex by (simp add: s d)
  show ?thesis
    using T[of "ex_key ''Q''"] T[of "ex_key ''z''"] len ar a(1) 3
    by (simp add: s d k u 1 2 perform_def run_binding_def termAction_def)
qed


text \<open>
  C10. A key event with the armed modifier combination whose key name reads (by
  \<^verbatim>\<open>atoi\<close>) as a non-zero integer selects a tab and returns, whatever the two binding
  tables hold: no action runs and nothing is fed to the terminal. So a binding whose key
  reads as a non-zero integer never fires: every key name that matches it selects a tab.
\<close>

theorem numeric_key_selects_tab:
  assumes "armed (state ev) (actionKey s)"
  shows "(atoi (keyval_name ev) \<noteq> 0 \<longrightarrow>
           termOnKeyPress env t ev s =
             Some (Inr (True, s\<lparr>keyState := key_mask (state ev),
                notebook := gtk_notebook_set_current_page (notebook s) (atoi (keyval_name ev) - 1)\<rparr>)))
    \<and> (\<forall>b :: Bindings. atoi (key b) \<noteq> 0 \<and> matches (keyval_name ev) (key b) \<longrightarrow>
           termOnKeyPress env t ev s =
             Some (Inr (True, s\<lparr>keyState := key_mask (state ev),
                notebook := gtk_notebook_set_current_page (notebook s) (atoi (key b) - 1)\<rparr>)))"
proof -
  have 1: "termOnKeyPress env t ev s =
             Some (Inr (True, s\<lparr>keyState := key_mask (state ev),
                notebook := gtk_notebook_set_current_page (notebook s) (atoi (keyval_name ev) - 1)\<rparr>))"
    if "atoi (keyval_name ev) \<noteq> 0"
    using assms that by (simp add: termOnKeyPress_def Let_def armed_def key_mask_def)
  show ?thesis
  proof (intro conjI impI allI)
    assume "atoi (keyval_name ev) \<noteq> 0"
    then show "termOnKeyPress env t ev s =
             Some (Inr (True, s\<lparr>keyState := key_mask (state ev),
                notebook := gtk_notebook_set_current_page (notebook s) (atoi (keyval_name ev) - 1)\<rparr>))"
      by (rule 1)
  next
    fix b :: Bindings
    assume b: "atoi (key b) \<noteq> 0 \<and> matches (keyval_name ev) (key b)"
    then have e: "atoi (keyval_name ev) = atoi (key b)" by (simp add: matches_atoi)
    with b have "atoi (keyval_name ev) \<noteq> 0" by simp
    from 1[OF this] show "termOnKeyPress env t ev s =
             Some (Inr (True, s\<lparr>keyState := key_mask (state ev),
                notebook := gtk_notebook_set_current_page (notebook s) (atoi (key b) - 1)\<rparr>))"
      by (simp add: e)
  qed
qed

theorem numeric_key_selects_tab_witness:
  "armed (state (ex_key ''1'')) (actionKey ex_bound) \<and> atoi ''1'' \<noteq> 0
   \<and> termOnKeyPress (ex_env no_file) 1 (ex_key ''1'') ex_bound
        = Some (Inr (True, ex_bound\<lparr>keyState := 12, notebook := \<lparr>pages = [0, 1], current = 0\<rparr>\<rparr>))
   \<and> \<lparr>internal = True, key = ''1'', cmd = ''exit''\<rparr> \<in> set (user_bindings ex_bound)
   \<and> matches (keyval_name (ex_key ''1'')) (key \<lparr>internal = True, key = ''1'', cmd = ''exit''\<rparr>)
   \<and> main_quit (snd (projr (the (termOnKeyPress (ex_env no_file) 1 (ex_key ''1'') ex_bound)))) = False"
proof -
  let ?b = "\<lparr>internal = True, key = ''1'', cmd = ''exit''\<rparr>"
  have a: "armed (state (ex_key ''1'')) (actionKey ex_bound)"
    by (simp add: ex_defs)
  have b: "atoi ''1'' = 1"
    by (simp add: atoi_defs)
  have m: "matches (keyval_name (ex_key ''1'')) (key ?b)"
    by (simp add: matches_def ex_key_def)
  have u: "?b \<in> set (user_bindings ex_bound)"
    by (simp add: user_bindings_def ex_bound_def)
  have 1: "termOnKeyPress (ex_env no_file) 1 (ex_key ''1'') ex_bound =
             Some (Inr (True, ex_bound\<lparr>keyState := key_mask (state (ex_key ''1'')),
                notebook := gtk_notebook_set_current_page (notebook ex_bound) (atoi (keyval_name (ex_key ''1'')) - 1)\<rparr>))"
    by (rule numeric_key_selects_tab[OF a, THEN conjunct1, rule_format]) (simp add: ex_key_def b)
  have 2: "termOnKeyPress (ex_env no_file) 1 (ex_key ''1'') ex_bound =
             Some (Inr (True, ex_bound\<lparr>keyState := key_mask (state (ex_key ''1'')),
                notebook := gtk_notebook_set_current_page (notebook ex_bound) (atoi (key ?b) - 1)\<rparr>))"
    by (rule numeric_key_selects_tab[OF a, THEN conjunct2, rule_format]) (insert m, simp add: b)
  have q: "main_quit ex_bound = False"
    by (simp add: ex_defs)
  from 2 have 3: "main_quit (snd (projr (the (termOnKeyPress (ex_env no_file) 1 (ex_key ''1'') ex_bound)))) = False"
    by (simp add: q)
  from 1 show ?thesis
    using a b m u 3 by (simp add: ex_defs gtk_notebook_set_current_page_def)
qed


section \<open>The loop of the parser\<close>

lemma fgets_progress:
  assumes "2 \<le> n" and "fgets n f = Some (c, f')"
  shows "length f' < length f"
proof -
  from assms have ne: "f \<noteq> []" by (auto simp: fgets_def split: if_splits)
  then have "0 < length f" by simp
  moreover from assms(1) ne have "0 < length (take (n - 1) f)" by simp
  ultimately show ?thesis
    using assms by (auto simp: fgets_def Let_def split: if_splits)
qed

lemma parse_loop_run:
  assumes "2 \<le> TERM_CONFIG_LENGTH env"
  shows "parse_loop env f st = Some (run_lines env (lines_of (TERM_CONFIG_LENGTH env) f) st)"
  using assms
proof (induction "TERM_CONFIG_LENGTH env" f arbitrary: st rule: lines_of.induct)
  case (1 f)
  show ?case
  proof (cases "fgets (TERM_CONFIG_LENGTH env) f")
    case None
    then show ?thesis
      by (subst parse_loop.simps, subst lines_of.simps) simp
  next
    case (Some p)
    obtain c f' where p: "p = (c, f')" by (cases p)
    have lt: "length f' < length f"
      using fgets_progress[OF "1.prems"] Some p by simp
    show ?thesis
    proof (cases "parse_line env (cstr c) st")
      case (Inl e)
      then show ?thesis
        using Some p lt by (subst parse_loop.simps, subst lines_of.simps) simp
    next
      case (Inr st')
      have "parse_loop env f' st' = Some (run_lines env (lines_of (TERM_CONFIG_LENGTH env) f') st')"
        using "1.hyps"[OF _ _ lt "1.prems"] Some p by simp
      then show ?thesis
        using Some p lt Inr by (subst parse_loop.simps, subst lines_of.simps) simp
    qed
  qed
qed

lemma with_value_Inr: "with_value vb f = Inr r \<longleftrightarrow> (\<exists>v. vb = Some v \<and> f v = Inr r)"
  by (cases vb) (simp_all add: with_value_def)

lemma printLog_fields [simp]:
  "keyCount (printLog m s) = keyCount s"
  "keyBindings (printLog m s) = keyBindings s"
  "defaultKeyBindings (printLog m s) = defaultKeyBindings s"
  "colorCount (printLog m s) = colorCount s"
  "termPalette (printLog m s) = termPalette s"
  "notebook (printLog m s) = notebook s"
  by (simp_all add: printLog_def)

lemma parse_bind_effect:
  assumes "parse_bind env buf ob0 vb0 s = Inr (ob, vb, s')"
  shows "line_effect env s s'"
proof -
  obtain o1 v1 where sc: "sscanf_s_line buf (ob0, vb0) = (o1, v1)"
    by (cases "sscanf_s_line buf (ob0, vb0)")
  from assms sc obtain option "value" where o1: "o1 = Some option" and v1: "v1 = Some value"
    by (auto simp: parse_bind_def with_value_Inr split: option.splits)
  obtain toks value' where st: "strtok_tilde value = (toks, value')"
    by (cases "strtok_tilde value")
  show ?thesis
  proof (cases toks)
    case None
    then have "s' = s" using assms sc o1 v1 st by (simp add: parse_bind_def with_value_def)
    then show ?thesis by (simp add: line_effect.le_skip)
  next
    case (Some kc)
    obtain k c where kc: "kc = (k, c)" by (cases kc)
    show ?thesis
    proof (cases c)
      case None
      then have "s' = s" using assms sc o1 v1 st Some kc by (simp add: parse_bind_def with_value_def)
      then show ?thesis by (simp add: line_effect.le_skip)
    next
      case (Some body)
      let ?b = "\<lparr>internal = (strcmp option ''bindi'' = 0), key = k,
                 cmd = (if strcmp option ''bindx'' = 0 then tl (butlast body) @ [CR]
                        else tl (butlast body))\<rparr>"
      have lt: "keyCount s < TERM_CONFIG_LENGTH env"
        using assms sc o1 v1 st \<open>toks = Some kc\<close> kc Some
        by (simp add: parse_bind_def with_value_def split: if_splits)
      have "s' = (printLog (Log_cmd (Suc (keyCount s)) (key ?b) (cmd ?b))
          (s\<lparr>keyBindings := (keyBindings s)[keyCount s := ?b]\<rparr>))
        \<lparr>defaultKeyBindings := invalidateDefaultBinding ?b (defaultKeyBindings s),
         keyCount := Suc (keyCount s)\<rparr>"
        using assms sc o1 v1 st \<open>toks = Some kc\<close> kc Some lt
        by (simp add: parse_bind_def with_value_def Let_def del: strcmp_eq_0)
      then show ?thesis
        using line_effect.le_bind[OF lt, of ?b] by simp
    qed
  qed
qed

lemma parse_color_effect:
  "parse_color option ob0 vb0 s = Inr (ob, vb, s') \<Longrightarrow> line_effect env s s'"
  by (auto simp: parse_color_def with_value_Inr Let_def case_prod_unfold
      split: option.splits if_splits intro: line_effect.le_skip line_effect.le_color)

lemma parse_small_effects:
  "parse_char ob0 vb0 s = Inr (ob, vb, s') \<Longrightarrow> line_effect env s s'"
  "parse_key ob0 vb0 s = Inr (ob, vb, s') \<Longrightarrow> line_effect env s s'"
  "parse_tab ob0 vb0 s = Inr (ob, vb, s') \<Longrightarrow> line_effect env s s'"
  "parse_font buf ob0 vb0 s = Inr (ob, vb, s') \<Longrightarrow> line_effect env s s'"
  "parse_cursor_shape ob0 vb0 s = Inr (ob, vb, s') \<Longrightarrow> line_effect env s s'"
  by (auto simp: parse_char_def parse_key_def parse_tab_def parse_font_def parse_cursor_shape_def
      with_value_Inr case_prod_unfold
      split: option.splits if_splits intro: line_effect.intros)


lemma parse_line_effect:
  assumes "parse_line env buf (ob0, vb0, s) = Inr (ob, vb, s')"
  shows "line_effect env s s'"
  using assms
  by (auto simp: parse_line_def with_value_Inr case_prod_unfold
      simp del: strcmp_eq_0
      split: if_splits option.splits
      intro: line_effect.intros parse_bind_effect parse_color_effect parse_small_effects)

lemma run_lines_effect:
  "run_lines env ls (ob0, vb0, s) = Inr (ob, vb, s') \<Longrightarrow> (line_effect env)\<^sup>*\<^sup>* s s'"
proof (induction ls arbitrary: ob0 vb0 s)
  case Nil
  then show ?case by simp
next
  case (Cons l ls)
  then obtain o1 v1 s1 where 1: "parse_line env l (ob0, vb0, s) = Inr (o1, v1, s1)"
    and 2: "run_lines env ls (o1, v1, s1) = Inr (ob, vb, s')"
    by (auto split: sum.splits)
  from parse_line_effect[OF 1] Cons.IH[OF 2] show ?case
    by (rule converse_rtranclp_into_rtranclp)
qed

lemma invalidate_length [simp]: "length (invalidateDefaultBinding b ds) = length ds"
  by (induction ds) simp_all

lemma invalidate_nth:
  "i < length ds \<Longrightarrow>
   invalidateDefaultBinding b ds ! i =
     (if cmd (bind (ds ! i)) = cmd b \<and> internal (bind (ds ! i)) = internal b
      then (ds ! i)\<lparr>invalid := True\<rparr> else ds ! i)"
proof (induction ds arbitrary: i)
  case Nil
  then show ?case by simp
next
  case (Cons d ds)
  then show ?case by (cases i) simp_all
qed

lemma invalidate_all_length [simp]: "length (invalidate_all bs ds) = length ds"
  by (induction bs arbitrary: ds) (simp_all add: invalidate_all_def)

lemma invalidate_all_nth:
  "i < length ds \<Longrightarrow>
   bind (invalidate_all bs ds ! i) = bind (ds ! i)
   \<and> (invalid (invalidate_all bs ds ! i) \<longleftrightarrow>
        invalid (ds ! i)
        \<or> (\<exists>b \<in> set bs. cmd b = cmd (bind (ds ! i)) \<and> internal b = internal (bind (ds ! i))))"
proof (induction bs arbitrary: ds)
  case Nil
  then show ?case by (simp add: invalidate_all_def)
next
  case (Cons b bs)
  have "invalidate_all (b # bs) ds = invalidate_all bs (invalidateDefaultBinding b ds)"
    by (simp add: invalidate_all_def)
  moreover have "i < length (invalidateDefaultBinding b ds)" using Cons.prems by simp
  ultimately show ?case
    using Cons.IH[of "invalidateDefaultBinding b ds"] Cons.prems
    by (auto simp: invalidate_nth)
qed

lemma invalidate_all_snoc: "invalidate_all (bs @ [b]) ds = invalidateDefaultBinding b (invalidate_all bs ds)"
  by (simp add: invalidate_all_def)

lemma effects_bindings:
  assumes "(line_effect env)\<^sup>*\<^sup>* s s'"
    and "keyCount s \<le> TERM_CONFIG_LENGTH env"
    and "length (keyBindings s) = TERM_CONFIG_LENGTH env"
  shows "keyCount s \<le> keyCount s' \<and> keyCount s' \<le> TERM_CONFIG_LENGTH env
     \<and> length (keyBindings s') = TERM_CONFIG_LENGTH env
     \<and> take (keyCount s) (keyBindings s') = take (keyCount s) (keyBindings s)
     \<and> defaultKeyBindings s' =
         invalidate_all (drop (keyCount s) (user_bindings s')) (defaultKeyBindings s)"
  using assms
proof (induction rule: rtranclp_induct)
  case base
  then show ?case by (simp add: user_bindings_def invalidate_all_def)
next
  case (step s1 s2)
  note IH = step.IH[OF step.prems]
  from step.hyps(2) show ?case
  proof (cases rule: line_effect.cases)
    case (le_bind b)
    have k: "keyCount s1 < length (keyBindings s1)" using le_bind IH by simp
    have "user_bindings s2 = user_bindings s1 @ [b]"
      using le_bind k by (simp add: user_bindings_def take_Suc_conv_app_nth)
    then have "drop (keyCount s) (user_bindings s2) = drop (keyCount s) (user_bindings s1) @ [b]"
      using IH k by (simp add: user_bindings_def)
    then show ?thesis
      using le_bind IH k by (simp add: invalidate_all_snoc)
  qed (use IH in \<open>simp_all add: user_bindings_def\<close>)
qed

lemma parseSettings_run:
  assumes "2 \<le> TERM_CONFIG_LENGTH env" and "fopen env (config_path env s) = Some f"
  shows "parseSettings env s =
     Some (map_sum id (\<lambda>st. snd (snd st))
       (run_lines env (lines_of (TERM_CONFIG_LENGTH env) f)
          (None, None, (start_of_pass env s)\<lparr>keyCount := 0\<rparr>)))"
  using assms(2)
  by (simp add: parseSettings_def parse_loop_run[OF assms(1)] start_of_pass_def Let_def
      split: sum.splits)

lemma parseSettings_effects:
  assumes "2 \<le> TERM_CONFIG_LENGTH env" and "fopen env (config_path env s) = Some f"
  shows "\<exists>r. parseSettings env s = Some r
     \<and> (\<forall>s'. r = Inr s' \<longrightarrow> (line_effect env)\<^sup>*\<^sup>* ((start_of_pass env s)\<lparr>keyCount := 0\<rparr>) s')"
proof -
  let ?st = "(None, None, (start_of_pass env s)\<lparr>keyCount := 0\<rparr>)"
  let ?r = "run_lines env (lines_of (TERM_CONFIG_LENGTH env) f) ?st"
  have "parseSettings env s = Some (map_sum id (\<lambda>st. snd (snd st)) ?r)"
    by (rule parseSettings_run[OF assms])
  moreover have "(line_effect env)\<^sup>*\<^sup>* ((start_of_pass env s)\<lparr>keyCount := 0\<rparr>) s'"
    if "map_sum id (\<lambda>st. snd (snd st)) ?r = Inr s'" for s'
  proof -
    from that obtain ob vb where "?r = Inr (ob, vb, s')"
      by (cases ?r) auto
    then show ?thesis by (rule run_lines_effect)
  qed
  ultimately show ?thesis by blast
qed

lemma parseSettings_no_file:
  assumes "fopen env (config_path env s) = None"
  shows "parseSettings env s =
     Some (Inr (printLog (Log_config_not_found (config_path env s)) (start_of_pass env s)))"
  using assms by (simp add: parseSettings_def start_of_pass_def Let_def)


section \<open>Binding lines\<close>





lemma sscanf_s_s_option:
  "scan_token buf = Some (a, r) \<Longrightarrow> \<exists>v. sscanf_s_s buf bufs = (Some a, v)"
  by (simp add: sscanf_s_s_def split: option.splits prod.splits)

lemma sscanf_s_line_rest:
  assumes "scan_token buf = Some (a, CHR '' '' # w @ [NL])"
    and "w \<noteq> []" and "\<not> isspace (hd w)" and "\<forall>c \<in> set w. c \<noteq> NL"
  shows "sscanf_s_line buf bufs = (Some a, Some w)"
proof -
  have "dropWhile isspace (w @ [NL]) = w @ [NL]"
    using assms(2,3) by (cases w) simp_all
  moreover have "takeWhile (\<lambda>c. c \<noteq> NL) (w @ [NL]) = w"
    using assms(4) by simp
  moreover have "\<not> (\<forall>c \<in> set w. isspace c)"
    using assms(2,3) by (cases w) auto
  ultimately show ?thesis
    using assms(1,2) by (auto simp: sscanf_s_line_def Let_def)
qed

lemma strtok_tilde_pair:
  assumes "k \<noteq> []" and "\<forall>c \<in> set k. c \<noteq> CHR ''~''" and "c \<noteq> []"
  shows "strtok_tilde (k @ CHR ''~'' # c) = (Some (k, Some c), k)"
proof -
  have h: "hd k \<noteq> CHR ''~''" using assms(1,2) by (cases k) simp_all
  have 1: "dropWhile (\<lambda>c. c = CHR ''~'') (k @ CHR ''~'' # c) = k @ CHR ''~'' # c"
    using h assms(1) by (cases k) simp_all
  have 2: "takeWhile (\<lambda>c. c \<noteq> CHR ''~'') (k @ CHR ''~'' # c) = k"
    using assms(2) by simp
  have 3: "dropWhile (\<lambda>c. c \<noteq> CHR ''~'') (k @ CHR ''~'' # c) = CHR ''~'' # c"
    using assms(2) by simp
  have 4: "takeWhile (\<lambda>c. c = CHR ''~'') (k @ CHR ''~'' # c) = []"
    using h assms(1) by (cases k) simp_all
  show ?thesis
    using assms(1,3) by (simp only: strtok_tilde_def Let_def 1 2 3 4) simp
qed


text \<open>
  One turn of the loop body on a binding line held in the buffer: the directive, a blank,
  the key, \<^verbatim>\<open>~\<close>, and a command of at least two characters before the newline.
\<close>

lemma parse_line_bind:
  assumes d: "d = ''bind'' \<or> d = ''bindx'' \<or> d = ''bindi''"
    and k: "k \<noteq> []" "\<not> isspace (hd k)" "\<forall>c \<in> set k. c \<noteq> CHR ''~'' \<and> c \<noteq> NL"
    and body: "\<forall>c \<in> set (x # body @ [q]). c \<noteq> NL"
    and room: "keyCount s < TERM_CONFIG_LENGTH env"
  shows "parse_line env (d @ '' '' @ k @ ''~'' @ x # body @ [q, NL]) (ob, vb, s) =
     Inr (Some d, Some k,
       (printLog (Log_cmd (Suc (keyCount s)) k (body @ (if d = ''bindx'' then [CR] else [])))
          (s\<lparr>keyBindings := (keyBindings s)
                [keyCount s := \<lparr>internal = (d = ''bindi''), key = k,
                                cmd = body @ (if d = ''bindx'' then [CR] else [])\<rparr>]\<rparr>))
        \<lparr>defaultKeyBindings :=
           invalidateDefaultBinding
             \<lparr>internal = (d = ''bindi''), key = k, cmd = body @ (if d = ''bindx'' then [CR] else [])\<rparr>
             (defaultKeyBindings s),
         keyCount := Suc (keyCount s)\<rparr>)"
proof -
  let ?w = "k @ CHR ''~'' # x # body @ [q]"
  let ?buf = "d @ '' '' @ k @ ''~'' @ x # body @ [q, NL]"
  have buf: "?buf = d @ CHR '' '' # ?w @ [NL]" by simp
  have dw: "d \<noteq> [] \<and> (\<forall>c \<in> set d. \<not> isspace c)"
    using d by (auto simp: isspace_def)
  have tok: "scan_token ?buf = Some (d, CHR '' '' # ?w @ [NL])"
    unfolding buf using scan_token_word[of d "CHR '' ''" "?w @ [NL]"] dw by simp
  obtain v1 where s1: "sscanf_s_s ?buf (ob, vb) = (Some d, v1)"
    using sscanf_s_s_option[OF tok] by blast
  have w1: "?w \<noteq> []" by simp
  have "hd ?w = hd k" using k(1) by (cases k) simp_all
  then have w2: "\<not> isspace (hd ?w)" using k(2) by simp
  have "CHR ''~'' \<noteq> NL" by (simp add: NL_def)
  then have w3: "\<forall>c \<in> set ?w. c \<noteq> NL" using k(3) body by auto
  note w = w1 w2 w3
  have s2: "sscanf_s_line ?buf (Some d, v1) = (Some d, Some ?w)"
    by (rule sscanf_s_line_rest[OF tok w])
  have st: "strtok_tilde ?w = (Some (k, Some (x # body @ [q])), k)"
    using strtok_tilde_pair[of k "x # body @ [q]"] k by simp
  have len: "\<not> ((?buf \<noteq> [] \<and> hd ?buf = CHR ''#'') \<or> strlen ?buf < 4)"
    using d by (auto simp: strlen_def)
  have pb: "parse_bind env ?buf (Some d) v1 s = Inr (Some d, Some k,
       (printLog (Log_cmd (Suc (keyCount s)) k (body @ (if d = ''bindx'' then [CR] else [])))
          (s\<lparr>keyBindings := (keyBindings s)
                [keyCount s := \<lparr>internal = (d = ''bindi''), key = k,
                                cmd = body @ (if d = ''bindx'' then [CR] else [])\<rparr>]\<rparr>))
        \<lparr>defaultKeyBindings :=
           invalidateDefaultBinding
             \<lparr>internal = (d = ''bindi''), key = k, cmd = body @ (if d = ''bindx'' then [CR] else [])\<rparr>
             (defaultKeyBindings s),
         keyCount := Suc (keyCount s)\<rparr>)"
    unfolding parse_bind_def s2 using st room
    by (simp add: with_value_def Let_def butlast_append)
  have disp: "strncmp d ''locale'' (strlen d) \<noteq> 0 \<and> strncmp d ''char'' (strlen d) \<noteq> 0
      \<and> strncmp d ''key'' (strlen d) \<noteq> 0 \<and> strncmp d ''bind'' (size_t_sub (strlen d) 1) = 0"
    using d by (auto simp: strncmp_def strlen_def size_t_sub_def)
  show ?thesis
    unfolding parse_line_def using len s1 disp pb
    by (simp only: if_False if_True prod.case option.case simp_thms)
qed

text \<open>
  \<^verbatim>\<open>fgets\<close> hands the loop a whole line when the line, with its newline, fits the buffer.
\<close>

lemma fgets_line:
  assumes "\<forall>c \<in> set l. c \<noteq> NL" and "length l + 1 < n"
  shows "fgets n (l @ NL # rest) = Some (l @ [NL], rest)"
proof -
  have t: "take (n - 1) (l @ NL # rest) = l @ NL # take (n - 1 - length l - 1) rest"
    using assms(2) by (simp add: take_Cons')
  have w: "takeWhile (\<lambda>c. c \<noteq> NL) (l @ NL # take (n - 1 - length l - 1) rest) = l"
    using assms(1) by (simp add: takeWhile_tail)
  show ?thesis
    unfolding fgets_def Let_def t w using assms(2) by simp
qed

lemma cstr_id: "\<forall>c \<in> set s. c \<noteq> NUL \<Longrightarrow> cstr s = s"
  by (simp add: cstr_def)


text \<open>
  C1 (as amended). Take a well-formed binding line: one of the words \<^verbatim>\<open>bind\<close>,
  \<^verbatim>\<open>bindx\<close>, \<^verbatim>\<open>bindi\<close>, a blank, the key, \<^verbatim>\<open>~\<close>, the command between two
  characters (the quotes) and a newline, the whole of at most \<^verbatim>\<open>TERM_CONFIG_LENGTH - 1\<close>
  bytes, so that it fits the line buffer. When it is the next line of the file and fewer
  than \<^verbatim>\<open>TERM_CONFIG_LENGTH\<close> bindings are stored, the loop of \<^verbatim>\<open>parseSettings\<close> reads
  exactly this line, appends one binding to the user bindings and goes on with the rest
  of the file. The stored command is the text between the \<^verbatim>\<open>~\<close> and the last
  character of the line with that last character (the closing quote) and its own first
  character (the opening quote) stripped; a carriage return is appended for \<^verbatim>\<open>bindx\<close>;
  the internal flag is set only for \<^verbatim>\<open>bindi\<close>. So the lines \<^verbatim>\<open>bindi q~reset"\<close> and
  \<^verbatim>\<open>bindx t~ls"\<close>, which have no opening quote, give the commands \<^verbatim>\<open>eset\<close> and
  \<^verbatim>\<open>s\<close> followed by a carriage return.
\<close>

theorem parse_bind_line:
  assumes d: "d = ''bind'' \<or> d = ''bindx'' \<or> d = ''bindi''"
    and k: "k \<noteq> []" "\<not> isspace (hd k)" "\<forall>c \<in> set k. c \<noteq> CHR ''~'' \<and> c \<noteq> NL \<and> c \<noteq> NUL"
    and body: "\<forall>c \<in> set (x # body @ [q]). c \<noteq> NL \<and> c \<noteq> NUL"
    and line: "line = d @ '' '' @ k @ ''~'' @ x # body @ [q, NL]"
    and fits: "length line < TERM_CONFIG_LENGTH env"
    and arr: "length (keyBindings s) = TERM_CONFIG_LENGTH env"
    and room: "keyCount s < TERM_CONFIG_LENGTH env"
    and b: "b = \<lparr>internal = (d = ''bindi''), key = k, cmd = body @ (if d = ''bindx'' then [CR] else [])\<rparr>"
    and s': "s' = (printLog (Log_cmd (Suc (keyCount s)) (key b) (cmd b))
                    (s\<lparr>keyBindings := (keyBindings s)[keyCount s := b]\<rparr>))
                  \<lparr>defaultKeyBindings := invalidateDefaultBinding b (defaultKeyBindings s),
                   keyCount := Suc (keyCount s)\<rparr>"
  shows "fgets (TERM_CONFIG_LENGTH env) (line @ rest) = Some (line, rest)
    \<and> parse_line env (cstr line) (ob, vb, s) = Inr (Some d, Some k, s')
    \<and> parse_loop env (line @ rest) (ob, vb, s) = parse_loop env rest (Some d, Some k, s')
    \<and> user_bindings s' = user_bindings s @ [b]"
proof -
  let ?l = "d @ '' '' @ k @ ''~'' @ x # body @ [q]"
  have l: "line = ?l @ [NL]" using line by simp
  have tn: "CHR ''~'' \<noteq> NL" "CHR '' '' \<noteq> NL" "CHR ''~'' \<noteq> NUL" "CHR '' '' \<noteq> NUL" "NL \<noteq> NUL"
    by (simp_all add: NL_def NUL_def)
  have dn: "\<forall>c \<in> set d. c \<noteq> NL" "\<forall>c \<in> set d. c \<noteq> NUL"
    using d by (auto simp: NL_def NUL_def)
  have kn: "\<forall>c \<in> set k. c \<noteq> NL" "\<forall>c \<in> set k. c \<noteq> NUL"
    using k(3) by simp_all
  have bn: "\<forall>c \<in> set (x # body @ [q]). c \<noteq> NL" "\<forall>c \<in> set (x # body @ [q]). c \<noteq> NUL"
    using body by simp_all
  have nl: "\<forall>c \<in> set ?l. c \<noteq> NL"
    using dn(1) kn(1) bn(1) tn(1,2) by (simp add: ball_Un)
  have nul: "\<forall>c \<in> set line. c \<noteq> NUL"
    unfolding line using dn(2) kn(2) bn(2) tn(3,4,5) by (simp add: ball_Un)
  have len: "length ?l + 1 < TERM_CONFIG_LENGTH env"
    using fits unfolding l by simp
  have f: "fgets (TERM_CONFIG_LENGTH env) (line @ rest) = Some (line, rest)"
    using fgets_line[OF nl len, of rest] unfolding l by simp
  have k': "\<forall>c \<in> set k. c \<noteq> CHR ''~'' \<and> c \<noteq> NL" using k(3) by simp
  note body' = bn(1)
  have "parse_line env line (ob, vb, s) = Inr (Some d, Some k, s')"
    unfolding line s' b
    using parse_line_bind[OF d k(1,2) k' body' room, of ob vb] by simp
  then have p: "parse_line env (cstr line) (ob, vb, s) = Inr (Some d, Some k, s')"
    by (simp only: cstr_id[OF nul])
  have lp: "parse_loop env (line @ rest) (ob, vb, s) = parse_loop env rest (Some d, Some k, s')"
    by (subst parse_loop.simps) (simp add: f p)
  have u: "user_bindings s' = user_bindings s @ [b]"
    using room arr unfolding s' by (simp add: user_bindings_def take_Suc_conv_app_nth)
  from f p lp u show ?thesis by simp
qed

section \<open>Invalidated default bindings\<close>

text \<open>
  C2 (as amended). No parse pass resets an invalidated flag. After a pass that reads the
  configuration file, a default entry is invalidated if and only if it was invalidated
  before the pass or some binding of the newly loaded user-binding list has the same
  command text and the same internal flag as the entry; the entries themselves stay as
  they are. (On the initial load all flags start clear.)
\<close>

theorem parseSettings_invalidates:
  assumes "2 \<le> TERM_CONFIG_LENGTH env"
    and "length (keyBindings s) = TERM_CONFIG_LENGTH env"
    and "fopen env (config_path env s) = Some f"
  shows "\<exists>r. parseSettings env s = Some r
     \<and> (\<forall>s'. r = Inr s' \<longrightarrow>
          length (defaultKeyBindings s') = length (defaultKeyBindings s)
          \<and> (\<forall>i < length (defaultKeyBindings s).
                bind (defaultKeyBindings s' ! i) = bind (defaultKeyBindings s ! i)
                \<and> (invalid (defaultKeyBindings s' ! i) \<longleftrightarrow>
                     invalid (defaultKeyBindings s ! i)
                     \<or> (\<exists>b \<in> set (user_bindings s').
                          cmd b = cmd (bind (defaultKeyBindings s ! i))
                          \<and> internal b = internal (bind (defaultKeyBindings s ! i))))))"
proof -
  let ?s0 = "(start_of_pass env s)\<lparr>keyCount := 0\<rparr>"
  from parseSettings_effects[OF assms(1,3)] obtain r where r: "parseSettings env s = Some r"
    and eff: "\<forall>s'. r = Inr s' \<longrightarrow> (line_effect env)\<^sup>*\<^sup>* ?s0 s'"
    by blast
  have s0: "keyCount ?s0 = 0" "length (keyBindings ?s0) = TERM_CONFIG_LENGTH env"
    "defaultKeyBindings ?s0 = defaultKeyBindings s"
    using assms(2) by (simp_all add: start_of_pass_def)
  have "length (defaultKeyBindings s') = length (defaultKeyBindings s)
          \<and> (\<forall>i < length (defaultKeyBindings s).
                bind (defaultKeyBindings s' ! i) = bind (defaultKeyBindings s ! i)
                \<and> (invalid (defaultKeyBindings s' ! i) \<longleftrightarrow>
                     invalid (defaultKeyBindings s ! i)
                     \<or> (\<exists>b \<in> set (user_bindings s').
                          cmd b = cmd (bind (defaultKeyBindings s ! i))
                          \<and> internal b = internal (bind (defaultKeyBindings s ! i)))))"
    if "r = Inr s'" for s'
  proof -
    from eff that have "(line_effect env)\<^sup>*\<^sup>* ?s0 s'" by simp
    from effects_bindings[OF this] s0
    have d: "defaultKeyBindings s' = invalidate_all (user_bindings s') (defaultKeyBindings s)"
      by simp
    show ?thesis
      unfolding d using invalidate_all_nth[of _ "defaultKeyBindings s" "user_bindings s'"]
      by simp
  qed
  with r show ?thesis by blast
qed


section \<open>A missing configuration file\<close>

text \<open>
  C8 (as amended). A parse call whose configuration file is missing is not in error and
  changes no setting, no binding and no flag: on the initial load the result is the
  built-in Configuration and an empty user-binding list, on a reload the Configuration,
  the user bindings and the invalidated flags of the previous generation all stay. The
  diagnostic is logged when debug messages are switched on, and not otherwise.
\<close>

theorem parseSettings_missing_file:
  assumes "fopen env (config_path env s) = None"
  shows "\<exists>s'. parseSettings env s = Some (Inr s')
     \<and> configuration_of s' = configuration_of s
     \<and> user_bindings s' = user_bindings s
     \<and> defaultKeyBindings s' = defaultKeyBindings s
     \<and> stderr s' = (if debugMessages s then stderr s @ [Log_config_not_found (config_path env s)]
                     else stderr s)
     \<and> (\<forall>cfg wd ex dbg. s = initial_globals env cfg wd ex dbg \<longrightarrow>
           configuration_of s' = builtin_configuration env \<and> user_bindings s' = [])"
  unfolding parseSettings_no_file[OF assms]
  by (auto simp: configuration_of_def builtin_configuration_def user_bindings_def printLog_def
      start_of_pass_def initial_globals_def)

section \<open>Palette overrides\<close>








section \<open>Examples of the parser\<close>

text \<open>Loading the example files, by evaluation.\<close>

lemma load_spec_example:
  "map_option (map_sum id user_bindings)
     (parseSettings (ex_env (one_file ex_path ex_conf_spec)) ex_start) =
   Some (Inr [\<lparr>internal = True, key = ''q'', cmd = ''eset''\<rparr>,
              \<lparr>internal = False, key = ''t'', cmd = [CHR ''s'', CR]\<rparr>])"
  by code_simp

lemma load_override:
  "parseSettings (ex_env (one_file ex_path ex_conf_override)) ex_start = Some (Inr ex_overridden)"
  by code_simp

lemma reload_plain:
  "map_option (map_sum id (flag_and_bindings 7))
     (parseSettings (ex_env (one_file ex_path ex_conf_plain)) (ex_overridden\<lparr>configFileName := None\<rparr>)) =
   Some (Inr (True, []))"
  by code_simp



lemma ex_env_fields [simp]:
  "TERM_CONFIG_LENGTH (ex_env fs) = 64" "fopen (ex_env fs) = fs" "HOME (ex_env fs) = ''/home/u''"
  "TERM_CONFIG_DIR (ex_env fs) = ''/.config/''" "TERM_NAME (ex_env fs) = ''kermit''"
  by (simp_all add: ex_env_def)

lemma ex_start_fields [simp]:
  "keyCount ex_start = 0" "length (keyBindings ex_start) = 64" "configFileName ex_start = None"
  "debugMessages ex_start = False" "tabPosition ex_start = 0" "stderr ex_start = []"
  "defaultKeyBindings ex_start = defaultKeyBindings_init" "defaultConfigFile ex_start = True"
  by (simp_all add: ex_start_def initial_globals_def ex_env_def)

lemma ex_config_path [simp]: "config_path (ex_env fs) ex_start = ex_path"
  by (simp add: config_path_def ex_path_def)

text \<open>
  The binding lines \<^verbatim>\<open>bindi q~"exit"\<close> and \<^verbatim>\<open>bindx t~"ls"\<close>, each as the only line
  of a file read at the start.
\<close>

theorem parse_bind_line_witness:
  "keyCount ex_start < TERM_CONFIG_LENGTH (ex_env no_file)
   \<and> length (''bindi q~'' @ [DQ] @ ''exit'' @ [DQ, NL]) < TERM_CONFIG_LENGTH (ex_env no_file)
   \<and> parse_loop (ex_env no_file) (''bindi q~'' @ [DQ] @ ''exit'' @ [DQ, NL]) (None, None, ex_start) =
       Some (Inr (Some ''bindi'', Some ''q'',
         ex_start\<lparr>keyBindings := (keyBindings ex_start)
                      [0 := \<lparr>internal = True, key = ''q'', cmd = ''exit''\<rparr>],
           defaultKeyBindings :=
             invalidateDefaultBinding \<lparr>internal = True, key = ''q'', cmd = ''exit''\<rparr>
               defaultKeyBindings_init,
           keyCount := 1\<rparr>))
   \<and> parse_loop (ex_env no_file) (''bindx t~'' @ [DQ] @ ''ls'' @ [DQ, NL]) (None, None, ex_start) =
       Some (Inr (Some ''bindx'', Some ''t'',
         ex_start\<lparr>keyBindings := (keyBindings ex_start)
                      [0 := \<lparr>internal = False, key = ''t'', cmd = ''ls'' @ [CR]\<rparr>],
           defaultKeyBindings :=
             invalidateDefaultBinding \<lparr>internal = False, key = ''t'', cmd = ''ls'' @ [CR]\<rparr>
               defaultKeyBindings_init,
           keyCount := 1\<rparr>))"
proof -
  let ?E = "ex_env no_file"
  have room: "keyCount ex_start < TERM_CONFIG_LENGTH ?E"
    and arr: "length (keyBindings ex_start) = TERM_CONFIG_LENGTH ?E"
    by simp_all
  have ch: "DQ \<noteq> NL" "DQ \<noteq> NUL" "CHR ''e'' \<noteq> NL" "CHR ''x'' \<noteq> NL" "CHR ''i'' \<noteq> NL"
    "CHR ''t'' \<noteq> NL" "CHR ''l'' \<noteq> NL" "CHR ''s'' \<noteq> NL" "CHR ''q'' \<noteq> NL"
    "CHR ''e'' \<noteq> NUL" "CHR ''x'' \<noteq> NUL" "CHR ''i'' \<noteq> NUL"
    "CHR ''t'' \<noteq> NUL" "CHR ''l'' \<noteq> NUL" "CHR ''s'' \<noteq> NUL" "CHR ''q'' \<noteq> NUL"
    by (simp_all add: DQ_def NL_def NUL_def)
  have sp: "\<not> isspace (CHR ''q'')" "\<not> isspace (CHR ''t'')"
    by (simp_all add: isspace_def)
  have e: "parse_loop ?E [] st = Some (Inr st)" for st
    by (subst parse_loop.simps) (simp add: fgets_def)
  have 1: "parse_loop ?E ((''bindi q~'' @ [DQ] @ ''exit'' @ [DQ, NL]) @ []) (None, None, ex_start) =
      parse_loop ?E [] (Some ''bindi'', Some ''q'',
         (printLog (Log_cmd (Suc (keyCount ex_start)) ''q'' ''exit'')
            (ex_start\<lparr>keyBindings := (keyBindings ex_start)
               [keyCount ex_start := \<lparr>internal = True, key = ''q'', cmd = ''exit''\<rparr>]\<rparr>))
          \<lparr>defaultKeyBindings := invalidateDefaultBinding \<lparr>internal = True, key = ''q'', cmd = ''exit''\<rparr>
               (defaultKeyBindings ex_start),
           keyCount := Suc (keyCount ex_start)\<rparr>)"
    using parse_bind_line[of "''bindi''" "''q''" DQ "''exit''" DQ _ ?E ex_start _ _ "[]" None None,
        OF _ _ _ _ _ refl _ arr room refl refl]
      ch sp
    by simp
  have 2: "parse_loop ?E ((''bindx t~'' @ [DQ] @ ''ls'' @ [DQ, NL]) @ []) (None, None, ex_start) =
      parse_loop ?E [] (Some ''bindx'', Some ''t'',
         (printLog (Log_cmd (Suc (keyCount ex_start)) ''t'' (''ls'' @ [CR]))
            (ex_start\<lparr>keyBindings := (keyBindings ex_start)
               [keyCount ex_start := \<lparr>internal = False, key = ''t'', cmd = ''ls'' @ [CR]\<rparr>]\<rparr>))
          \<lparr>defaultKeyBindings := invalidateDefaultBinding \<lparr>internal = False, key = ''t'', cmd = ''ls'' @ [CR]\<rparr>
               (defaultKeyBindings ex_start),
           keyCount := Suc (keyCount ex_start)\<rparr>)"
    using parse_bind_line[of "''bindx''" "''t''" DQ "''ls''" DQ _ ?E ex_start _ _ "[]" None None,
        OF _ _ _ _ _ refl _ arr room refl refl]
      ch sp
    by simp
  from 1 2 room show ?thesis
    by (simp add: e printLog_def)
qed

text \<open>
  The example of the specification, whose binding lines have no opening quote: the stored
  commands are \<^verbatim>\<open>eset\<close> and \<^verbatim>\<open>s\<close> with a carriage return, not \<^verbatim>\<open>reset\<close> and
  \<^verbatim>\<open>ls\<close> with a carriage return.
\<close>

theorem spec_example_bindings_counterexample:
  "map_option (map_sum id user_bindings)
     (parseSettings (ex_env (one_file ex_path ex_conf_spec)) ex_start) =
   Some (Inr [\<lparr>internal = True, key = ''q'', cmd = ''eset''\<rparr>,
              \<lparr>internal = False, key = ''t'', cmd = [CHR ''s'', CR]\<rparr>])
   \<and> map_option (map_sum id user_bindings)
     (parseSettings (ex_env (one_file ex_path ex_conf_spec)) ex_start) \<noteq>
   Some (Inr [\<lparr>internal = True, key = ''q'', cmd = ''reset''\<rparr>,
              \<lparr>internal = False, key = ''t'', cmd = ''ls'' @ [CR]\<rparr>])"
  by (simp add: load_spec_example)

text \<open>
  Loading \<^verbatim>\<open>bindi x~"exit"\<close> at the start invalidates the default entry number 7
  (\<^verbatim>\<open>q\<close>, \<^verbatim>\<open>exit\<close>) and not number 6.
\<close>

theorem parseSettings_invalidates_witness:
  "2 \<le> TERM_CONFIG_LENGTH (ex_env (one_file ex_path ex_conf_override))
   \<and> length (keyBindings ex_start) = TERM_CONFIG_LENGTH (ex_env (one_file ex_path ex_conf_override))
   \<and> parseSettings (ex_env (one_file ex_path ex_conf_override)) ex_start = Some (Inr ex_overridden)
   \<and> (invalid (defaultKeyBindings ex_overridden ! 7) \<longleftrightarrow>
        invalid (defaultKeyBindings ex_start ! 7)
        \<or> (\<exists>b \<in> set (user_bindings ex_overridden).
              cmd b = cmd (bind (defaultKeyBindings ex_start ! 7))
              \<and> internal b = internal (bind (defaultKeyBindings ex_start ! 7))))
   \<and> invalid (defaultKeyBindings ex_overridden ! 7)
   \<and> \<not> invalid (defaultKeyBindings ex_overridden ! 6)"
proof -
  let ?E = "ex_env (one_file ex_path ex_conf_override)"
  have a: "2 \<le> TERM_CONFIG_LENGTH ?E" by simp
  have b: "length (keyBindings ex_start) = TERM_CONFIG_LENGTH ?E" by simp
  have c: "fopen ?E (config_path ?E ex_start) = Some ex_conf_override"
    by (simp add: one_file_def)
  from parseSettings_invalidates[OF a b c] obtain r where r: "parseSettings ?E ex_start = Some r"
    and p: "\<forall>s'. r = Inr s' \<longrightarrow>
          length (defaultKeyBindings s') = length (defaultKeyBindings ex_start)
          \<and> (\<forall>i < length (defaultKeyBindings ex_start).
                bind (defaultKeyBindings s' ! i) = bind (defaultKeyBindings ex_start ! i)
                \<and> (invalid (defaultKeyBindings s' ! i) \<longleftrightarrow>
                     invalid (defaultKeyBindings ex_start ! i)
                     \<or> (\<exists>b \<in> set (user_bindings s').
                          cmd b = cmd (bind (defaultKeyBindings ex_start ! i))
                          \<and> internal b = internal (bind (defaultKeyBindings ex_start ! i)))))"
    by blast
  from r have "r = Inr ex_overridden" by (simp add: load_override)
  with p have q: "\<forall>i < length (defaultKeyBindings ex_start).
                (invalid (defaultKeyBindings ex_overridden ! i) \<longleftrightarrow>
                     invalid (defaultKeyBindings ex_start ! i)
                     \<or> (\<exists>b \<in> set (user_bindings ex_overridden).
                          cmd b = cmd (bind (defaultKeyBindings ex_start ! i))
                          \<and> internal b = internal (bind (defaultKeyBindings ex_start ! i))))"
    by blast
  have n: "(7::nat) < length (defaultKeyBindings ex_start)" "(6::nat) < length (defaultKeyBindings ex_start)"
    by (simp_all add: defaultKeyBindings_init_def)
  have u: "user_bindings ex_overridden = [\<lparr>internal = True, key = ''x'', cmd = ''exit''\<rparr>]"
    by (simp add: user_bindings_def ex_overridden_def ex_start_def initial_globals_def ex_env_def
        take_Suc_conv_app_nth)
  have d7: "defaultKeyBindings_init ! 7 = \<lparr>bind = \<lparr>internal = True, key = ''q'', cmd = ''exit''\<rparr>, invalid = False\<rparr>"
    and d6: "defaultKeyBindings_init ! 6 = \<lparr>bind = \<lparr>internal = True, key = ''d'', cmd = ''default-config''\<rparr>, invalid = False\<rparr>"
    by (simp_all add: defaultKeyBindings_init_def)
  from q[rule_format, OF n(1)] q[rule_format, OF n(2)] show ?thesis
    using a b by (simp add: load_override u d7 d6)
qed

text \<open>
  After that load, a reload of a file without any binding leaves an empty user-binding
  list, and entry number 7 is still invalidated.
\<close>

theorem reload_keeps_invalid_counterexample:
  "parseSettings (ex_env (one_file ex_path ex_conf_override)) ex_start = Some (Inr ex_overridden)
   \<and> map_option (map_sum id (flag_and_bindings 7))
       (parseSettings (ex_env (one_file ex_path ex_conf_plain)) (ex_overridden\<lparr>configFileName := None\<rparr>)) =
     Some (Inr (True, []))"
  by (simp add: load_override reload_plain)

text \<open>The initial load without a file, debug messages off.\<close>

theorem parseSettings_missing_file_witness:
  "fopen (ex_env no_file) (config_path (ex_env no_file) ex_start) = None
   \<and> (\<exists>s'. parseSettings (ex_env no_file) ex_start = Some (Inr s')
         \<and> configuration_of s' = builtin_configuration (ex_env no_file)
         \<and> user_bindings s' = [] \<and> stderr s' = [])"
proof -
  have a: "fopen (ex_env no_file) (config_path (ex_env no_file) ex_start) = None"
    by (simp add: no_file_def)
  from parseSettings_missing_file[OF a] obtain s' where
    1: "parseSettings (ex_env no_file) ex_start = Some (Inr s')"
    and 2: "stderr s' = (if debugMessages ex_start
              then stderr ex_start @ [Log_config_not_found (config_path (ex_env no_file) ex_start)]
              else stderr ex_start)"
    and 3: "\<forall>cfg wd ex dbg. ex_start = initial_globals (ex_env no_file) cfg wd ex dbg \<longrightarrow>
           configuration_of s' = builtin_configuration (ex_env no_file) \<and> user_bindings s' = []"
    by blast
  have "ex_start = initial_globals (ex_env no_file) None None None False"
    by (simp add: ex_start_def)
  from 3[rule_format, OF this]
  have "configuration_of s' = builtin_configuration (ex_env no_file) \<and> user_bindings s' = []" .
  with 1 2 a show ?thesis by simp
qed

text \<open>
  After a load that set the tab position to top and stored a binding, the action
  \<^verbatim>\<open>reload-config\<close> with the file gone keeps the tab position (the built-in one is
  bottom, 0) and the binding, and logs nothing, debug messages being off.
\<close>

theorem reload_missing_file_counterexample:
  "parseSettings (ex_env (one_file ex_path ex_conf_override)) ex_start = Some (Inr ex_overridden)
   \<and> tabPosition ex_start = 0
   \<and> map_option (map_sum id (kept \<circ> snd))
       (termAction (ex_env no_file) 0 ''reload-config'' ex_overridden) =
     Some (Inr (1, [\<lparr>internal = True, key = ''x'', cmd = ''exit''\<rparr>], []))"
proof -
  let ?s = "ex_overridden\<lparr>configFileName := None\<rparr>"
  have f: "debugMessages ex_overridden = False" "defaultConfigFile ex_overridden = True"
    "tabPosition ex_overridden = 1" "stderr ex_overridden = []"
    by (simp_all add: ex_overridden_def)
  have pl: "printLog m ex_overridden = ex_overridden" for m
    by (simp add: printLog_def f)
  have u: "user_bindings ex_overridden = [\<lparr>internal = True, key = ''x'', cmd = ''exit''\<rparr>]"
    by (simp add: user_bindings_def ex_overridden_def take_Suc_conv_app_nth)
  have p: "config_path (ex_env no_file) ?s = ex_path"
    by (simp add: config_path_def ex_path_def)
  have "fopen (ex_env no_file) (config_path (ex_env no_file) ?s) = None"
    by (simp add: no_file_def)
  from parseSettings_no_file[OF this]
  have "termAction (ex_env no_file) 0 ''reload-config'' ex_overridden =
      Some (Inr (True, configureTerm (ex_env no_file) 0
        (printLog (Log_config_not_found ex_path) (start_of_pass (ex_env no_file) ?s))))"
    by (simp add: termAction_def Let_def f p pl)
  then show ?thesis
    using u
    by (simp add: load_override kept_def configureTerm_def setTermColors_def setTermFont_def Let_def
        printLog_def start_of_pass_def f user_bindings_def)
qed





end
